theory Spec2Isabelle
  imports Main "HOL-Library.Word"
begin

section \<open>The node modal of the JSON graph editor\<close>

text \<open>
  A shallow embedding of \<^verbatim>\<open>src/features/modals/NodeModal/index.tsx\<close>: the helpers
  \<^verbatim>\<open>getValueAtPath\<close>, \<^verbatim>\<open>normalizeNodeData\<close>, \<^verbatim>\<open>jsonPathToString\<close> and the
  handlers of the \<^verbatim>\<open>NodeModal\<close> component. The helpers are pure functions over
  JavaScript values; the handlers transform the component's local state and call the
  stores, and each returns the new local state with the list of store calls it made.
\<close>

subsection \<open>JavaScript strings\<close>

text \<open>
  A JavaScript string is a sequence of 16-bit code units. \<open>js\<close> turns an ASCII literal
  into code units; characters that an Isabelle literal cannot hold are written by their
  code (\<open>0x22\<close> is the double quote, \<open>0x0A\<close> the line feed).
\<close>

type_synonym jschar = "16 word"
type_synonym jsstring = "jschar list"

definition js :: "string \<Rightarrow> jsstring" where
  "js s = map of_char s"

definition dq :: jsstring where
  "dq = [0x22]"

definition isDigit :: "jschar \<Rightarrow> bool" where
  "isDigit c = (0x30 \<le> c \<and> c \<le> 0x39)"

text \<open>\<^verbatim>\<open>Array.prototype.join\<close> on an array of strings.\<close>

fun join :: "jsstring \<Rightarrow> jsstring list \<Rightarrow> jsstring" where
  "join sep [] = []"
| "join sep [x] = x"
| "join sep (x # y # ys) = x @ sep @ join sep (y # ys)"

text \<open>
  \<^verbatim>\<open>String.prototype.trim\<close> removes WhiteSpace and LineTerminator code units from both
  ends: TAB, VT, FF, SP, NBSP, ZWNBSP, the other space separators (category Zs) and
  LF, CR, LS, PS.
\<close>

definition isWhiteSpace :: "jschar \<Rightarrow> bool" where
  "isWhiteSpace c =
     (c = 0x09 \<or> c = 0x0A \<or> c = 0x0B \<or> c = 0x0C \<or> c = 0x0D \<or> c = 0x20 \<or> c = 0xA0
      \<or> c = 0x1680 \<or> (0x2000 \<le> c \<and> c \<le> 0x200A) \<or> c = 0x2028 \<or> c = 0x2029
      \<or> c = 0x202F \<or> c = 0x205F \<or> c = 0x3000 \<or> c = 0xFEFF)"

definition trim :: "jsstring \<Rightarrow> jsstring" where
  "trim s = rev (dropWhile isWhiteSpace (rev (dropWhile isWhiteSpace s)))"

text \<open>The decimal text of a natural number, as JavaScript writes an array index.\<close>

definition digitChar :: "nat \<Rightarrow> jschar" where
  "digitChar d = of_nat (48 + d)"

function natText :: "nat \<Rightarrow> jsstring" where
  "natText n = (if n < 10 then [digitChar n] else natText (n div 10) @ [digitChar (n mod 10)])"
  by pat_completeness auto
termination
  by (relation "measure (\<lambda>n. n)") auto

subsection \<open>JavaScript values\<close>

text \<open>
  The values a JSON document denotes, \<^verbatim>\<open>undefined\<close>, and the values of the engine
  that a member access can reach from them. Numbers are IEEE doubles in JavaScript;
  the model keeps them in a type parameter \<open>'n\<close> and takes the conversions between
  numbers and text from the host (below). An object is the list of its own properties
  in the order JavaScript enumerates them. \<open>JBuiltin kind name\<close> is a value of the
  engine that is not data of a document: a function (\<^verbatim>\<open>typeof\<close> gives \<^verbatim>\<open>function\<close>), a
  prototype or other built-in object, or the one built-in array,
  \<^verbatim>\<open>Array.prototype\<close>; the host names it.
\<close>

datatype builtin_kind = BFunction | BObject | BArray

datatype 'n jsval =
    JUndefined
  | JNull
  | JBool bool
  | JNum 'n
  | JStr jsstring
  | JArr "'n jsval list"
  | JObj "(jsstring \<times> 'n jsval) list"
  | JBuiltin builtin_kind jsstring

datatype js_error = SyntaxError | TypeError | Thrown jsstring

text \<open>
  A property key is an array index when it is the canonical decimal text of an integer
  below \<open>2^32 - 1\<close>. Own property keys are enumerated with the array indices first, in
  ascending order, then the other keys in the order of their creation.
\<close>

definition decimalValue :: "jsstring \<Rightarrow> int" where
  "decimalValue s = foldl (\<lambda>a c. 10 * a + (uint c - 48)) 0 s"

definition arrayIndex :: "jsstring \<Rightarrow> int option" where
  "arrayIndex s =
     (case s of
        [] \<Rightarrow> None
      | c # cs \<Rightarrow>
          if list_all isDigit s \<and> (c \<noteq> 0x30 \<or> cs = []) \<and> decimalValue s < 4294967295
          then Some (decimalValue s) else None)"

definition keyBefore :: "jsstring \<Rightarrow> jsstring \<Rightarrow> bool" where
  "keyBefore k k' =
     (case arrayIndex k of
        None \<Rightarrow> False
      | Some i \<Rightarrow> (case arrayIndex k' of None \<Rightarrow> True | Some j \<Rightarrow> i < j))"

fun insertKey :: "jsstring \<Rightarrow> 'v \<Rightarrow> (jsstring \<times> 'v) list \<Rightarrow> (jsstring \<times> 'v) list" where
  "insertKey k v [] = [(k, v)]"
| "insertKey k v (p # ps) =
     (if keyBefore k (fst p) then (k, v) # p # ps else p # insertKey k v ps)"

fun replaceKey :: "jsstring \<Rightarrow> 'v \<Rightarrow> (jsstring \<times> 'v) list \<Rightarrow> (jsstring \<times> 'v) list" where
  "replaceKey k v [] = []"
| "replaceKey k v (p # ps) = (if fst p = k then (k, v) # ps else p # replaceKey k v ps)"

text \<open>
  CreateDataProperty on an ordinary object: an existing property keeps its place and
  takes the new value, a new one is created. \<^verbatim>\<open>JSON.parse\<close> and the object spread
  define properties this way.
\<close>

definition defineProperty :: "(jsstring \<times> 'v) list \<Rightarrow> jsstring \<Rightarrow> 'v \<Rightarrow> (jsstring \<times> 'v) list" where
  "defineProperty ps k v =
     (if k \<in> set (map fst ps) then replaceKey k v ps else insertKey k v ps)"

text \<open>
  The assignment \<^verbatim>\<open>obj[k] = v\<close> on an object made by \<^verbatim>\<open>{}\<close>, which is modelled
  with its prototype: \<^verbatim>\<open>Object.prototype\<close> at first. An own property is updated.
  Otherwise the key \<^verbatim>\<open>__proto__\<close> reaches the accessor of \<^verbatim>\<open>Object.prototype\<close> when
  the prototype chain leads there (not after the prototype was set to \<^verbatim>\<open>null\<close>, and
  not when the prototype is an object with an own property of that name): the
  accessor sets the prototype to an object or \<^verbatim>\<open>null\<close>, does nothing for a primitive
  value, and creates no property. In every other case the assignment creates an own
  property.
\<close>

datatype 'n prototype = ObjectPrototype | NullPrototype | ValuePrototype "'n jsval"

fun protoSetterReached :: "'n prototype \<Rightarrow> bool" where
  "protoSetterReached ObjectPrototype = True"
| "protoSetterReached NullPrototype = False"
| "protoSetterReached (ValuePrototype (JObj ps)) = (js ''__proto__'' \<notin> set (map fst ps))"
| "protoSetterReached (ValuePrototype v) = True"

fun setPrototype :: "'n prototype \<Rightarrow> 'n jsval \<Rightarrow> 'n prototype" where
  "setPrototype pr JNull = NullPrototype"
| "setPrototype pr (JObj ps) = ValuePrototype (JObj ps)"
| "setPrototype pr (JArr xs) = ValuePrototype (JArr xs)"
| "setPrototype pr (JBuiltin kind name) = ValuePrototype (JBuiltin kind name)"
| "setPrototype pr v = pr"

definition assignProperty ::
  "'n prototype \<times> (jsstring \<times> 'n jsval) list \<Rightarrow> jsstring \<Rightarrow> 'n jsval
     \<Rightarrow> 'n prototype \<times> (jsstring \<times> 'n jsval) list" where
  "assignProperty obj k v =
     (if k = js ''__proto__'' \<and> k \<notin> set (map fst (snd obj)) \<and> protoSetterReached (fst obj)
      then (setPrototype (fst obj) v, snd obj)
      else (fst obj, defineProperty (snd obj) k v))"

text \<open>The object spread \<^verbatim>\<open>{...a, ...b}\<close> of two objects.\<close>

definition spread :: "(jsstring \<times> 'v) list \<Rightarrow> (jsstring \<times> 'v) list \<Rightarrow> (jsstring \<times> 'v) list" where
  "spread a b = foldl (\<lambda>acc p. defineProperty acc (fst p) (snd p)) [] (a @ b)"

subsection \<open>The host: the JavaScript engine and the jsonc-parser library\<close>

text \<open>
  What the file takes from outside the repository is a parameter of the model:
  the engine's conversions between numbers and text, its built-in values, and the
  three functions imported from the third-party library \<^verbatim>\<open>jsonc-parser\<close>. \<open>'e\<close> is the
  library's type of edit lists. \<open>modify\<close> is always called with the formatting
  options \<^verbatim>\<open>{ insertSpaces: true, tabSize: 2 }\<close>, so they are not an argument here.
  \<open>numOfNat\<close> is the number of a length. \<open>inherited v k\<close> is the member \<open>k\<close> of a
  value \<open>v\<close> other than \<^verbatim>\<open>null\<close> and \<^verbatim>\<open>undefined\<close> that has no own data of that
  key: what the prototype chain of \<open>v\<close> provides (a method, the prototype itself for
  \<^verbatim>\<open>__proto__\<close>), \<^verbatim>\<open>undefined\<close> when it provides nothing, the error when a getter
  throws; for a built-in value it is every member. \<open>builtinToString\<close> and
  \<open>builtinToJSON\<close> are the texts ToString and \<^verbatim>\<open>JSON.stringify\<close> give a built-in value
  (no text for a function).
\<close>

datatype 'n segment = SegStr jsstring | SegNum 'n

record ('n, 'e) host =
  numToString :: "'n \<Rightarrow> jsstring"
  numIsFinite :: "'n \<Rightarrow> bool"
  numOfLiteral :: "jsstring \<Rightarrow> 'n"
  numOfNat :: "nat \<Rightarrow> 'n"
  inherited :: "'n jsval \<Rightarrow> jsstring \<Rightarrow> js_error + 'n jsval"
  builtinToString :: "jsstring \<Rightarrow> jsstring"
  builtinToJSON :: "jsstring \<Rightarrow> jsstring option"
  parse :: "jsstring \<Rightarrow> js_error + 'n jsval"
  modify :: "jsstring \<Rightarrow> 'n segment list \<Rightarrow> 'n jsval \<Rightarrow> js_error + 'e"
  applyEdits :: "jsstring \<Rightarrow> 'e \<Rightarrow> js_error + jsstring"

subsection \<open>\<^verbatim>\<open>JSON.parse\<close>\<close>

text \<open>
  The JSON grammar of ECMA-404 as \<^verbatim>\<open>JSON.parse\<close> reads it: a lexer, then a pushdown
  automaton over the tokens. The value of a number literal is the host's.
\<close>

datatype 'n token =
    TLBrace | TRBrace | TLBrack | TRBrack | TColon | TComma
  | TString jsstring | TNumber 'n | TTrue | TFalse | TNull

definition isJsonWs :: "jschar \<Rightarrow> bool" where
  "isJsonWs c = (c = 0x09 \<or> c = 0x0A \<or> c = 0x0D \<or> c = 0x20)"

definition hexValue :: "jschar \<Rightarrow> nat option" where
  "hexValue c =
     (if 0x30 \<le> c \<and> c \<le> 0x39 then Some (unat c - 0x30)
      else if 0x41 \<le> c \<and> c \<le> 0x46 then Some (unat c - 0x41 + 10)
      else if 0x61 \<le> c \<and> c \<le> 0x66 then Some (unat c - 0x61 + 10)
      else None)"

fun hex4 :: "jsstring \<Rightarrow> jschar option" where
  "hex4 [a, b, c, d] =
     (case (hexValue a, hexValue b, hexValue c, hexValue d) of
        (Some x, Some y, Some z, Some w) \<Rightarrow> Some (of_nat (((x * 16 + y) * 16 + z) * 16 + w))
      | _ \<Rightarrow> None)"
| "hex4 _ = None"

definition simpleEscape :: "jschar \<Rightarrow> jschar option" where
  "simpleEscape e =
     (if e = 0x22 then Some 0x22
      else if e = 0x5C then Some 0x5C
      else if e = 0x2F then Some 0x2F
      else if e = 0x62 then Some 0x08
      else if e = 0x66 then Some 0x0C
      else if e = 0x6E then Some 0x0A
      else if e = 0x72 then Some 0x0D
      else if e = 0x74 then Some 0x09
      else None)"

text \<open>
  The rest of a string literal after its opening quote: the string it denotes and
  the number of code units read, the closing quote included.
\<close>

fun lexString :: "jsstring \<Rightarrow> (jsstring \<times> nat) option" where
  "lexString [] = None"
| "lexString (c # cs) =
     (if c = 0x22 then Some ([], 1)
      else if c < 0x20 then None
      else if c = 0x5C then
        (case cs of
           [] \<Rightarrow> None
         | e # es \<Rightarrow>
             if e = 0x75 then
               (case hex4 (take 4 es) of
                  None \<Rightarrow> None
                | Some w \<Rightarrow> map_option (\<lambda>r. (w # fst r, snd r + 6)) (lexString (drop 4 es)))
             else
               (case simpleEscape e of
                  None \<Rightarrow> None
                | Some w \<Rightarrow> map_option (\<lambda>r. (w # fst r, snd r + 2)) (lexString es)))
      else map_option (\<lambda>r. (c # fst r, snd r + 1)) (lexString cs))"

definition digitsLength :: "jsstring \<Rightarrow> nat" where
  "digitsLength s = length (takeWhile isDigit s)"

text \<open>
  The length of the number literal a text starts with:
  \<^verbatim>\<open>-? (0 | [1-9][0-9]*) (. [0-9]+)? ([eE] [+-]? [0-9]+)?\<close>.
\<close>

definition lexNumber :: "jsstring \<Rightarrow> nat option" where
  "lexNumber s =
     (let sign = (case s of [] \<Rightarrow> 0 | c # _ \<Rightarrow> if c = 0x2D then 1 else (0::nat));
          r0 = drop sign s;
          intLen = (case r0 of [] \<Rightarrow> 0 | d # _ \<Rightarrow> if d = 0x30 then 1 else digitsLength r0);
          r1 = drop intLen r0;
          fracLen =
            (case r1 of
               [] \<Rightarrow> 0
             | p # r \<Rightarrow> if p = 0x2E \<and> 0 < digitsLength r then 1 + digitsLength r else 0);
          r2 = drop fracLen r1;
          expLen =
            (case r2 of
               [] \<Rightarrow> 0
             | e # r \<Rightarrow>
                 if e = 0x65 \<or> e = 0x45 then
                   (let sg = (case r of [] \<Rightarrow> 0 | c # _ \<Rightarrow> if c = 0x2B \<or> c = 0x2D then 1 else (0::nat));
                        ds = digitsLength (drop sg r)
                    in if 0 < ds then 1 + sg + ds else 0)
                 else 0)
      in if intLen = 0 then None else Some (sign + intLen + fracLen + expLen))"

fun lex :: "('n, 'e) host \<Rightarrow> jsstring \<Rightarrow> 'n token list option" where
  "lex h [] = Some []"
| "lex h (c # cs) =
     (if isJsonWs c then lex h cs
      else if c = 0x7B then map_option (Cons TLBrace) (lex h cs)
      else if c = 0x7D then map_option (Cons TRBrace) (lex h cs)
      else if c = 0x5B then map_option (Cons TLBrack) (lex h cs)
      else if c = 0x5D then map_option (Cons TRBrack) (lex h cs)
      else if c = 0x3A then map_option (Cons TColon) (lex h cs)
      else if c = 0x2C then map_option (Cons TComma) (lex h cs)
      else if c = 0x22 then
        (case lexString cs of
           None \<Rightarrow> None
         | Some r \<Rightarrow> map_option (Cons (TString (fst r))) (lex h (drop (snd r) cs)))
      else if c = 0x2D \<or> isDigit c then
        (case lexNumber (c # cs) of
           None \<Rightarrow> None
         | Some n \<Rightarrow>
             map_option (Cons (TNumber (numOfLiteral h (take n (c # cs))))) (lex h (drop (n - 1) cs)))
      else if take 4 (c # cs) = js ''true'' then map_option (Cons TTrue) (lex h (drop 3 cs))
      else if take 5 (c # cs) = js ''false'' then map_option (Cons TFalse) (lex h (drop 4 cs))
      else if take 4 (c # cs) = js ''null'' then map_option (Cons TNull) (lex h (drop 3 cs))
      else None)"

text \<open>
  The automaton: a stack of the arrays and objects that are open, and what may come
  next. An array under construction holds its elements in reverse.
\<close>

datatype 'n frame =
    FArr "'n jsval list"
  | FObj "(jsstring \<times> 'n jsval) list"
  | FKey "(jsstring \<times> 'n jsval) list" jsstring

datatype pmode = WantValue | WantValueOrEnd | WantKeyOrEnd | WantKey | WantColon | AfterValue

datatype 'n pstate = Run pmode "'n frame list" | Done "'n jsval"

fun deliver :: "'n jsval \<Rightarrow> 'n frame list \<Rightarrow> 'n pstate option" where
  "deliver v [] = Some (Done v)"
| "deliver v (FArr vs # st) = Some (Run AfterValue (FArr (v # vs) # st))"
| "deliver v (FKey ps k # st) = Some (Run AfterValue (FObj (defineProperty ps k v) # st))"
| "deliver v (FObj ps # st) = None"

fun scalar :: "'n token \<Rightarrow> 'n jsval option" where
  "scalar (TString s) = Some (JStr s)"
| "scalar (TNumber n) = Some (JNum n)"
| "scalar TTrue = Some (JBool True)"
| "scalar TFalse = Some (JBool False)"
| "scalar TNull = Some JNull"
| "scalar _ = None"

fun startValue :: "'n token \<Rightarrow> 'n frame list \<Rightarrow> 'n pstate option" where
  "startValue TLBrack st = Some (Run WantValueOrEnd (FArr [] # st))"
| "startValue TLBrace st = Some (Run WantKeyOrEnd (FObj [] # st))"
| "startValue t st = (case scalar t of None \<Rightarrow> None | Some v \<Rightarrow> deliver v st)"

fun pstep :: "'n pstate \<Rightarrow> 'n token \<Rightarrow> 'n pstate option" where
  "pstep (Done v) t = None"
| "pstep (Run WantValue st) t = startValue t st"
| "pstep (Run WantValueOrEnd st) t =
     (case (t, st) of
        (TRBrack, FArr vs # st') \<Rightarrow> deliver (JArr (rev vs)) st'
      | _ \<Rightarrow> startValue t st)"
| "pstep (Run WantKeyOrEnd st) t =
     (case (t, st) of
        (TRBrace, FObj ps # st') \<Rightarrow> deliver (JObj ps) st'
      | (TString k, FObj ps # st') \<Rightarrow> Some (Run WantColon (FKey ps k # st'))
      | _ \<Rightarrow> None)"
| "pstep (Run WantKey st) t =
     (case (t, st) of
        (TString k, FObj ps # st') \<Rightarrow> Some (Run WantColon (FKey ps k # st'))
      | _ \<Rightarrow> None)"
| "pstep (Run WantColon st) t = (case t of TColon \<Rightarrow> Some (Run WantValue st) | _ \<Rightarrow> None)"
| "pstep (Run AfterValue st) t =
     (case (t, st) of
        (TComma, FArr vs # st') \<Rightarrow> Some (Run WantValue st)
      | (TRBrack, FArr vs # st') \<Rightarrow> deliver (JArr (rev vs)) st'
      | (TComma, FObj ps # st') \<Rightarrow> Some (Run WantKey st)
      | (TRBrace, FObj ps # st') \<Rightarrow> deliver (JObj ps) st'
      | _ \<Rightarrow> None)"

fun prun :: "'n pstate \<Rightarrow> 'n token list \<Rightarrow> 'n pstate option" where
  "prun s [] = Some s"
| "prun s (t # ts) = (case pstep s t of None \<Rightarrow> None | Some s' \<Rightarrow> prun s' ts)"

definition JSON_parse :: "('n, 'e) host \<Rightarrow> jsstring \<Rightarrow> js_error + 'n jsval" where
  "JSON_parse h s =
     (case lex h s of
        None \<Rightarrow> Inl SyntaxError
      | Some ts \<Rightarrow>
          (case prun (Run WantValue []) ts of
             Some (Done v) \<Rightarrow> Inr v
           | _ \<Rightarrow> Inl SyntaxError))"

text \<open>
  Objects of JavaScript have no two properties of one key. The type of values does
  not enforce it, so it is a predicate, on values and on what the automaton holds.
\<close>

fun distinctKeys :: "'n jsval \<Rightarrow> bool" where
  "distinctKeys (JObj ps) = distinct (map fst ps)"
| "distinctKeys _ = True"

fun frameKeys :: "'n frame \<Rightarrow> bool" where
  "frameKeys (FArr vs) = True"
| "frameKeys (FObj ps) = distinct (map fst ps)"
| "frameKeys (FKey ps k) = distinct (map fst ps)"

fun stateKeys :: "'n pstate \<Rightarrow> bool" where
  "stateKeys (Run m st) = list_all frameKeys st"
| "stateKeys (Done v) = distinctKeys v"

subsection \<open>Conversion of values to text\<close>

text \<open>
  ToString, as a template literal and \<^verbatim>\<open>Array.prototype.join\<close> apply it: an array is
  its elements joined by commas, with nothing for \<^verbatim>\<open>null\<close> and \<^verbatim>\<open>undefined\<close>.
\<close>

fun toString :: "('n, 'e) host \<Rightarrow> 'n jsval \<Rightarrow> jsstring" where
  "toString h JUndefined = js ''undefined''"
| "toString h JNull = js ''null''"
| "toString h (JBool b) = (if b then js ''true'' else js ''false'')"
| "toString h (JNum n) = numToString h n"
| "toString h (JStr s) = s"
| "toString h (JArr xs) =
     join (js '','') (map (\<lambda>x. if x = JUndefined \<or> x = JNull then [] else toString h x) xs)"
| "toString h (JObj ps) = js ''[object Object]''"
| "toString h (JBuiltin kind name) = builtinToString h name"

definition joinValues :: "('n, 'e) host \<Rightarrow> jsstring \<Rightarrow> 'n jsval list \<Rightarrow> jsstring" where
  "joinValues h sep xs =
     join sep (map (\<lambda>x. if x = JUndefined \<or> x = JNull then [] else toString h x) xs)"

text \<open>
  \<^verbatim>\<open>JSON.stringify(v, null, 2)\<close>. QuoteJSONString escapes the quote, the backslash, the
  control characters and every surrogate that is not part of a pair.
\<close>

definition hexDigit :: "nat \<Rightarrow> jschar" where
  "hexDigit n = (if n < 10 then of_nat (0x30 + n) else of_nat (0x57 + n))"

definition unicodeEscape :: "jschar \<Rightarrow> jsstring" where
  "unicodeEscape c =
     [0x5C, 0x75, hexDigit (unat c div 4096), hexDigit (unat c div 256 mod 16),
      hexDigit (unat c div 16 mod 16), hexDigit (unat c mod 16)]"

definition escapeChar :: "jschar \<Rightarrow> jsstring" where
  "escapeChar c =
     (if c = 0x08 then [0x5C, 0x62]
      else if c = 0x09 then [0x5C, 0x74]
      else if c = 0x0A then [0x5C, 0x6E]
      else if c = 0x0C then [0x5C, 0x66]
      else if c = 0x0D then [0x5C, 0x72]
      else if c = 0x22 then [0x5C, 0x22]
      else if c = 0x5C then [0x5C, 0x5C]
      else if c < 0x20 then unicodeEscape c
      else [c])"

definition isHighSurrogate :: "jschar \<Rightarrow> bool" where
  "isHighSurrogate c = (0xD800 \<le> c \<and> c \<le> 0xDBFF)"

definition isLowSurrogate :: "jschar \<Rightarrow> bool" where
  "isLowSurrogate c = (0xDC00 \<le> c \<and> c \<le> 0xDFFF)"

fun quoteChars :: "jsstring \<Rightarrow> jsstring" where
  "quoteChars [] = []"
| "quoteChars [c] =
     (if isHighSurrogate c \<or> isLowSurrogate c then unicodeEscape c else escapeChar c)"
| "quoteChars (c # d # cs) =
     (if isHighSurrogate c \<and> isLowSurrogate d then c # d # quoteChars cs
      else if isHighSurrogate c \<or> isLowSurrogate c then unicodeEscape c @ quoteChars (d # cs)
      else escapeChar c @ quoteChars (d # cs))"

definition quoteJSONString :: "jsstring \<Rightarrow> jsstring" where
  "quoteJSONString s = [0x22] @ quoteChars s @ [0x22]"

definition gap :: jsstring where
  "gap = js ''  ''"

text \<open>
  The text of a value at indentation \<open>ind\<close>; \<open>serialize h [] v\<close> is
  \<^verbatim>\<open>JSON.stringify(v, null, 2)\<close> for an object or array \<open>v\<close>. A member whose value
  has no JSON text (\<^verbatim>\<open>undefined\<close>, a function) is left out of an object, and such an
  element of an array is written \<^verbatim>\<open>null\<close>.
\<close>

fun omitted :: "('n, 'e) host \<Rightarrow> 'n jsval \<Rightarrow> bool" where
  "omitted h JUndefined = True"
| "omitted h (JBuiltin kind name) = (builtinToJSON h name = None)"
| "omitted h v = False"

fun serialize :: "('n, 'e) host \<Rightarrow> jsstring \<Rightarrow> 'n jsval \<Rightarrow> jsstring" where
  "serialize h ind JUndefined = js ''null''"
| "serialize h ind JNull = js ''null''"
| "serialize h ind (JBool b) = (if b then js ''true'' else js ''false'')"
| "serialize h ind (JNum n) = (if numIsFinite h n then numToString h n else js ''null'')"
| "serialize h ind (JStr s) = quoteJSONString s"
| "serialize h ind (JArr xs) =
     (if xs = [] then js ''[]''
      else js ''['' @ [0x0A] @ ind @ gap
           @ join ([0x2C, 0x0A] @ ind @ gap) (map (serialize h (ind @ gap)) xs)
           @ [0x0A] @ ind @ js '']'')"
| "serialize h ind (JObj ps) =
     (let members = filter (\<lambda>p. \<not> omitted h (snd p)) ps
      in if members = [] then js ''{}''
         else js ''{'' @ [0x0A] @ ind @ gap
              @ join ([0x2C, 0x0A] @ ind @ gap)
                  (map (\<lambda>p. quoteJSONString (fst p) @ js '': '' @ serialize h (ind @ gap) (snd p))
                     members)
              @ [0x0A] @ ind @ js ''}'')"
| "serialize h ind (JBuiltin kind name) =
     (case builtinToJSON h name of None \<Rightarrow> js ''null'' | Some t \<Rightarrow> t)"

subsection \<open>\<^verbatim>\<open>getValueAtPath\<close>\<close>

text \<open>
  The member access \<^verbatim>\<open>current[segment]\<close>. A numeric segment is converted to its
  text first. The access throws a TypeError on \<^verbatim>\<open>null\<close> and \<^verbatim>\<open>undefined\<close>. On any
  other value it reads the own data of that key if there is one: a property of an
  object, the element of an array or the code unit of a string at an index, the
  \<^verbatim>\<open>length\<close> of an array or a string. Every other member is the host's
  \<open>inherited\<close>. A value of the model is its own data, so two objects of the same
  properties are one value and inherit the same members: an object whose prototype
  was replaced is not told apart from a plain one.
\<close>

definition toPropertyKey :: "('n, 'e) host \<Rightarrow> 'n segment \<Rightarrow> jsstring" where
  "toPropertyKey h seg = (case seg of SegStr s \<Rightarrow> s | SegNum n \<Rightarrow> numToString h n)"

fun ownMember :: "('n, 'e) host \<Rightarrow> 'n jsval \<Rightarrow> jsstring \<Rightarrow> 'n jsval option" where
  "ownMember h (JObj ps) k = map_of ps k"
| "ownMember h (JArr xs) k =
     (if k = js ''length'' then Some (JNum (numOfNat h (length xs)))
      else (case arrayIndex k of
              None \<Rightarrow> None
            | Some i \<Rightarrow> if i < int (length xs) then Some (xs ! nat i) else None))"
| "ownMember h (JStr s) k =
     (if k = js ''length'' then Some (JNum (numOfNat h (length s)))
      else (case arrayIndex k of
              None \<Rightarrow> None
            | Some i \<Rightarrow> if i < int (length s) then Some (JStr [s ! nat i]) else None))"
| "ownMember h v k = None"

definition getMember :: "('n, 'e) host \<Rightarrow> 'n jsval \<Rightarrow> jsstring \<Rightarrow> js_error + 'n jsval" where
  "getMember h current k =
     (if current = JUndefined \<or> current = JNull then Inl TypeError
      else (case ownMember h current k of
              Some v \<Rightarrow> Inr v
            | None \<Rightarrow> inherited h current k))"

text \<open>The loop \<^verbatim>\<open>for (const segment of path) current = current[segment]\<close>.\<close>

fun walk :: "('n, 'e) host \<Rightarrow> 'n jsval \<Rightarrow> 'n segment list \<Rightarrow> js_error + 'n jsval" where
  "walk h current [] = Inr current"
| "walk h current (segment # path) =
     (case getMember h current (toPropertyKey h segment) of
        Inl e \<Rightarrow> Inl e
      | Inr next \<Rightarrow> walk h next path)"

text \<open>The body of the \<^verbatim>\<open>try\<close>, and the function with its \<^verbatim>\<open>catch\<close>.\<close>

definition valueAtPath :: "('n, 'e) host \<Rightarrow> jsstring \<Rightarrow> 'n segment list \<Rightarrow> js_error + 'n jsval" where
  "valueAtPath h json path =
     (case parse h json of Inl e \<Rightarrow> Inl e | Inr parsed \<Rightarrow> walk h parsed path)"

definition getValueAtPath :: "('n, 'e) host \<Rightarrow> jsstring \<Rightarrow> 'n segment list \<Rightarrow> 'n jsval" where
  "getValueAtPath h json path =
     (case valueAtPath h json path of Inl e \<Rightarrow> JNull | Inr current \<Rightarrow> current)"

subsection \<open>\<^verbatim>\<open>normalizeNodeData\<close> and \<^verbatim>\<open>jsonPathToString\<close>\<close>

text \<open>
  Modelled from the spec: the type \<^verbatim>\<open>NodeData\<close> of a node and the type of its rows,
  declared in \<^verbatim>\<open>types/graph\<close>, which is not among the sources. The records hold the
  fields this file reads: a row's \<^verbatim>\<open>key\<close> (a string or \<^verbatim>\<open>null\<close>), \<^verbatim>\<open>value\<close> and
  \<^verbatim>\<open>type\<close>, a node's \<^verbatim>\<open>id\<close>, \<^verbatim>\<open>text\<close> (its rows) and optional \<^verbatim>\<open>path\<close>.
\<close>

record 'n node_row =
  row_key :: "jsstring option"
  row_value :: "'n jsval"
  row_type :: jsstring

record 'n node =
  node_id :: jsstring
  node_text :: "'n node_row list"
  node_path :: "'n segment list option"

text \<open>A key is truthy unless it is \<^verbatim>\<open>null\<close> or the empty string.\<close>

definition truthyKey :: "jsstring option \<Rightarrow> bool" where
  "truthyKey k = (case k of None \<Rightarrow> False | Some t \<Rightarrow> t \<noteq> [])"

text \<open>
  The body of the \<^verbatim>\<open>forEach\<close>: one row into \<^verbatim>\<open>obj\<close>, the object with its
  prototype. \<^verbatim>\<open>JSON.stringify\<close> then writes its own properties.
\<close>

definition addRow ::
  "'n prototype \<times> (jsstring \<times> 'n jsval) list \<Rightarrow> 'n node_row
     \<Rightarrow> 'n prototype \<times> (jsstring \<times> 'n jsval) list" where
  "addRow obj row =
     (if row_type row \<noteq> js ''array'' \<and> row_type row \<noteq> js ''object'' then
        (case row_key row of
           None \<Rightarrow> obj
         | Some k \<Rightarrow> if k \<noteq> [] then assignProperty obj k (row_value row) else obj)
      else obj)"

definition normalizeNodeData :: "('n, 'e) host \<Rightarrow> 'n node_row list option \<Rightarrow> jsstring" where
  "normalizeNodeData h nodeRows =
     (case nodeRows of
        None \<Rightarrow> js ''{}''
      | Some rows \<Rightarrow>
          if length rows = 0 then js ''{}''
          else if length rows = 1 \<and> \<not> truthyKey (row_key (rows ! 0))
            then toString h (row_value (rows ! 0))
          else serialize h [] (JObj (snd (foldl addRow (ObjectPrototype, []) rows))))"

text \<open>
  The object as the specification words it: the rows whose type is neither
  \<^verbatim>\<open>array\<close> nor \<^verbatim>\<open>object\<close> and whose key is truthy, each as its key with its value.
\<close>

definition shownEntries :: "'n node_row list \<Rightarrow> (jsstring \<times> 'n jsval) list" where
  "shownEntries rows =
     concat (map (\<lambda>row. case row_key row of
                          None \<Rightarrow> []
                        | Some k \<Rightarrow>
                            if row_type row \<noteq> js ''array'' \<and> row_type row \<noteq> js ''object'' \<and> k \<noteq> []
                            then [(k, row_value row)] else []) rows)"

definition jsonPathToString :: "('n, 'e) host \<Rightarrow> 'n segment list option \<Rightarrow> jsstring" where
  "jsonPathToString h path =
     (case path of
        None \<Rightarrow> js ''$''
      | Some p \<Rightarrow>
          if length p = 0 then js ''$''
          else
            (let segments =
                   map (\<lambda>seg. case seg of SegNum n \<Rightarrow> JNum n
                                         | SegStr s \<Rightarrow> JStr ([0x22] @ s @ [0x22])) p
             in js ''$['' @ joinValues h (js ''][''  ) segments @ js '']''))"

text \<open>
  The text of one segment as the specification words it: a numeric segment bare, a
  string segment between double quotes.
\<close>

definition segmentText :: "('n, 'e) host \<Rightarrow> 'n segment \<Rightarrow> jsstring" where
  "segmentText h seg = (case seg of SegNum n \<Rightarrow> numToString h n | SegStr t \<Rightarrow> dq @ t @ dq)"

subsection \<open>The component \<^verbatim>\<open>NodeModal\<close>\<close>

text \<open>
  What a render of the component works on: the selected node and the document text it
  reads from the stores (\<^verbatim>\<open>nodeData\<close>, \<^verbatim>\<open>getJson()\<close>), the property
  \<^verbatim>\<open>opened\<close>, and its three state variables. The state variable \<^verbatim>\<open>error\<close> holds the
  message \<^verbatim>\<open>err?.message || String(err)\<close> of a caught error or \<^verbatim>\<open>null\<close>; the model
  keeps the error itself.
\<close>

record 'n modal =
  nodeData :: "'n node option"
  json :: jsstring
  opened :: bool
  isEditing :: bool
  value' :: jsstring
  error :: "js_error option"

text \<open>
  Modelled from the spec: the three external stores \<^verbatim>\<open>useFile\<close>, \<^verbatim>\<open>useJson\<close> and
  \<^verbatim>\<open>useGraph\<close>, whose code is not among the sources. The model does not say what a
  store does with a call; it records the calls a handler makes, each with its
  arguments, in the order the handler makes them. A store is modified only through
  these calls. \<open>SetTimeout d i\<close> registers, with delay \<open>d\<close>, the callback of
  \<^verbatim>\<open>handleSave\<close> that closed over the node id \<open>i\<close>.
\<close>

datatype 'n call =
    SetContents jsstring bool
  | SetJson jsstring
  | SetGraph jsstring
  | SetTimeout nat jsstring
  | SetSelectedNode "'n node"

definition rowsOf :: "'n modal \<Rightarrow> 'n node_row list option" where
  "rowsOf s = Some (case nodeData s of None \<Rightarrow> [] | Some n \<Rightarrow> node_text n)"

text \<open>The effect that runs when \<^verbatim>\<open>nodeData?.id\<close> or \<^verbatim>\<open>opened\<close> has changed.\<close>

definition resetEffect :: "('n, 'e) host \<Rightarrow> 'n modal \<Rightarrow> 'n modal" where
  "resetEffect h s =
     s\<lparr>value' := normalizeNodeData h (rowsOf s), isEditing := False, error := None\<rparr>"

definition handleEdit :: "'n modal \<Rightarrow> 'n modal \<times> 'n call list" where
  "handleEdit s = (s\<lparr>isEditing := True\<rparr>, [])"

definition handleCancel :: "('n, 'e) host \<Rightarrow> 'n modal \<Rightarrow> 'n modal \<times> 'n call list" where
  "handleCancel h s =
     (s\<lparr>value' := normalizeNodeData h (rowsOf s), isEditing := False, error := None\<rparr>, [])"

text \<open>The \<^verbatim>\<open>onChange\<close> of the text area.\<close>

definition handleChange :: "jsstring \<Rightarrow> 'n modal \<Rightarrow> 'n modal \<times> 'n call list" where
  "handleChange t s = (s\<lparr>value' := t\<rparr>, [])"

text \<open>The parent opens or closes the modal: the property changes and the effect runs.\<close>

definition setOpened :: "('n, 'e) host \<Rightarrow> bool \<Rightarrow> 'n modal \<Rightarrow> 'n modal \<times> 'n call list" where
  "setOpened h b s =
     (if b = opened s then (s, []) else (resetEffect h (s\<lparr>opened := b\<rparr>), []))"

text \<open>
  The tests of the edited text: \<^verbatim>\<open>/^[-0-9.]+$/.test(t)\<close> and
  \<^verbatim>\<open>t.replace(/^"|"$/g, "")\<close>.
\<close>

definition matchesNumeric :: "jsstring \<Rightarrow> bool" where
  "matchesNumeric t = (t \<noteq> [] \<and> list_all (\<lambda>c. c = 0x2D \<or> isDigit c \<or> c = 0x2E) t)"

definition stripQuotes :: "jsstring \<Rightarrow> jsstring" where
  "stripQuotes t =
     (let r = (case t of [] \<Rightarrow> [] | c # cs \<Rightarrow> if c = 0x22 then cs else t)
      in if r \<noteq> [] \<and> last r = 0x22 then butlast r else r)"

definition literalLike :: "jsstring \<Rightarrow> bool" where
  "literalLike trimmed =
     (matchesNumeric trimmed \<or> trimmed = js ''null'' \<or> trimmed = js ''true''
      \<or> trimmed = js ''false'')"

text \<open>
  \<^verbatim>\<open>handleSave\<close>, lines 94 to 106: the value of the edited text, or the error that leaves
  the inner \<^verbatim>\<open>try\<close>.
\<close>

definition editedValue :: "('n, 'e) host \<Rightarrow> jsstring \<Rightarrow> js_error + 'n jsval" where
  "editedValue h v =
     (case JSON_parse h v of
        Inr x \<Rightarrow> Inr x
      | Inl e \<Rightarrow>
          (let trimmed = trim v
           in if literalLike trimmed then JSON_parse h trimmed
              else Inr (JStr (stripQuotes trimmed))))"

text \<open>
  Lines 108 to 117: when both values pass the test
  \<^verbatim>\<open>typeof x === "object" && x !== null && !Array.isArray(x)\<close>, the value to set is
  the spread of the two, otherwise the edited value. The spread copies the own
  enumerable properties; a built-in object of the language has none.
\<close>

fun typeof :: "'n jsval \<Rightarrow> jsstring" where
  "typeof JUndefined = js ''undefined''"
| "typeof JNull = js ''object''"
| "typeof (JBool b) = js ''boolean''"
| "typeof (JNum n) = js ''number''"
| "typeof (JStr s) = js ''string''"
| "typeof (JArr xs) = js ''object''"
| "typeof (JObj ps) = js ''object''"
| "typeof (JBuiltin kind name) = (if kind = BFunction then js ''function'' else js ''object'')"

fun isArray :: "'n jsval \<Rightarrow> bool" where
  "isArray (JArr xs) = True"
| "isArray (JBuiltin kind name) = (kind = BArray)"
| "isArray _ = False"

fun ownProperties :: "'n jsval \<Rightarrow> (jsstring \<times> 'n jsval) list" where
  "ownProperties (JObj ps) = ps"
| "ownProperties _ = []"

definition valueToSet :: "'n jsval \<Rightarrow> 'n jsval \<Rightarrow> 'n jsval" where
  "valueToSet originalValue edited =
     (if typeof originalValue = js ''object'' \<and> originalValue \<noteq> JNull \<and> \<not> isArray originalValue
         \<and> typeof edited = js ''object'' \<and> edited \<noteq> JNull \<and> \<not> isArray edited
      then JObj (spread (ownProperties originalValue) (ownProperties edited))
      else edited)"

text \<open>
  Lines 87 to 124: the body of the outer \<^verbatim>\<open>try\<close> up to \<^verbatim>\<open>newJson\<close>, the patched
  document, or the error thrown on the way.
\<close>

definition newJson :: "('n, 'e) host \<Rightarrow> 'n modal \<Rightarrow> 'n node \<Rightarrow> js_error + jsstring" where
  "newJson h s nd =
     (let original = json s;
          path = (case node_path nd of None \<Rightarrow> [] | Some p \<Rightarrow> p);
          originalValue = getValueAtPath h original path
      in case editedValue h (value' s) of
           Inl e \<Rightarrow> Inl e
         | Inr edited \<Rightarrow>
             (case modify h original path (valueToSet originalValue edited) of
                Inl e \<Rightarrow> Inl e
              | Inr edits \<Rightarrow> applyEdits h original edits))"

definition handleSave :: "('n, 'e) host \<Rightarrow> 'n modal \<Rightarrow> 'n modal \<times> 'n call list" where
  "handleSave h s =
     (case nodeData s of
        None \<Rightarrow> (s, [])
      | Some nd \<Rightarrow>
          (case newJson h s nd of
             Inl err \<Rightarrow> (s\<lparr>error := Some err\<rparr>, [])
           | Inr doc \<Rightarrow>
               (s\<lparr>isEditing := False, error := None\<rparr>,
                [SetContents doc True, SetJson doc, SetGraph doc, SetTimeout 50 (node_id nd)])))"

text \<open>
  The callback of the timer, run on the node list \<^verbatim>\<open>useGraph.getState().nodes\<close> of the
  moment it fires.
\<close>

definition reselect :: "jsstring \<Rightarrow> 'n node list \<Rightarrow> 'n call list" where
  "reselect nodeIdToUpdate updatedNodes =
     (case find (\<lambda>n. node_id n = nodeIdToUpdate) updatedNodes of
        None \<Rightarrow> []
      | Some updatedNode \<Rightarrow> [SetSelectedNode updatedNode])"

text \<open>What the user and the parent can do to the component.\<close>

datatype event = Edit | Cancel | Change jsstring | Opened bool | Save

fun handle :: "('n, 'e) host \<Rightarrow> event \<Rightarrow> 'n modal \<Rightarrow> 'n modal \<times> 'n call list" where
  "handle h Edit s = handleEdit s"
| "handle h Cancel s = handleCancel h s"
| "handle h (Change t) s = handleChange t s"
| "handle h (Opened b) s = setOpened h b s"
| "handle h Save s = handleSave h s"

subsection \<open>A concrete host and document for the examples\<close>

text \<open>
  The theorems below hold for every host. Their examples run on this one: a number is
  kept as the text of its literal, the library's \<open>parse\<close> is \<^verbatim>\<open>JSON.parse\<close> made
  fault tolerant, and \<open>modify\<close> knows the root path only, where the edit replaces the
  whole document by the text of the new value. Of the engine's built-ins it knows
  what every value inherits from \<^verbatim>\<open>Object.prototype\<close>, the prototype and the
  constructor of a value; the further methods of arrays, strings, numbers and
  functions are not in its table.
\<close>

definition objectPrototypeMethods :: "jsstring list" where
  "objectPrototypeMethods =
     map js [''__defineGetter__'', ''__defineSetter__'', ''hasOwnProperty'',
             ''__lookupGetter__'', ''__lookupSetter__'', ''isPrototypeOf'',
             ''propertyIsEnumerable'', ''toString'', ''valueOf'', ''toLocaleString'']"

fun prototypeOf :: "'n jsval \<Rightarrow> 'n jsval" where
  "prototypeOf (JObj ps) = JBuiltin BObject (js ''Object.prototype'')"
| "prototypeOf (JArr xs) = JBuiltin BArray (js ''Array.prototype'')"
| "prototypeOf (JStr s) = JBuiltin BObject (js ''String.prototype'')"
| "prototypeOf (JNum n) = JBuiltin BObject (js ''Number.prototype'')"
| "prototypeOf (JBool b) = JBuiltin BObject (js ''Boolean.prototype'')"
| "prototypeOf (JBuiltin kind name) =
     (if name = js ''Object.prototype'' then JNull
      else if kind = BFunction \<and> name \<noteq> js ''Function.prototype''
        then JBuiltin BFunction (js ''Function.prototype'')
      else JBuiltin BObject (js ''Object.prototype''))"
| "prototypeOf v = JUndefined"

fun constructorOf :: "'n jsval \<Rightarrow> 'n jsval" where
  "constructorOf (JObj ps) = JBuiltin BFunction (js ''Object'')"
| "constructorOf (JArr xs) = JBuiltin BFunction (js ''Array'')"
| "constructorOf (JStr s) = JBuiltin BFunction (js ''String'')"
| "constructorOf (JNum n) = JBuiltin BFunction (js ''Number'')"
| "constructorOf (JBool b) = JBuiltin BFunction (js ''Boolean'')"
| "constructorOf (JBuiltin kind name) =
     (if kind = BFunction then JBuiltin BFunction (js ''Function'')
      else JBuiltin BFunction (take (length name - 10) name))"
| "constructorOf v = JUndefined"

definition exampleInherited :: "'n jsval \<Rightarrow> jsstring \<Rightarrow> js_error + 'n jsval" where
  "exampleInherited v k =
     Inr (if k = js ''__proto__'' then prototypeOf v
          else if k = js ''constructor'' then constructorOf v
          else if k \<in> set objectPrototypeMethods then JBuiltin BFunction k
          else JUndefined)"

definition prototypeTexts :: "(jsstring \<times> jsstring \<times> jsstring) list" where
  "prototypeTexts =
     [(js ''Object.prototype'', js ''[object Object]'', js ''{}''),
      (js ''Array.prototype'', [], js ''[]''),
      (js ''String.prototype'', [], dq @ dq),
      (js ''Number.prototype'', js ''0'', js ''0''),
      (js ''Boolean.prototype'', js ''false'', js ''false'')]"

definition baseHost :: "(jsstring, jsstring) host" where
  "baseHost =
     \<lparr>numToString = (\<lambda>n. n), numIsFinite = (\<lambda>n. True), numOfLiteral = (\<lambda>t. t),
      numOfNat = natText,
      inherited = exampleInherited,
      builtinToString =
        (\<lambda>name. case map_of prototypeTexts name of
                   Some t \<Rightarrow> fst t
                 | None \<Rightarrow> js ''function '' @ name @ js ''() { [native code] }''),
      builtinToJSON = (\<lambda>name. map_option snd (map_of prototypeTexts name)),
      parse = (\<lambda>t. Inr JUndefined),
      modify = (\<lambda>d p v. Inl (Thrown (js ''no such path''))),
      applyEdits = (\<lambda>d e. Inr e)\<rparr>"

definition exampleHost :: "(jsstring, jsstring) host" where
  "exampleHost =
     baseHost
       \<lparr>parse := (\<lambda>t. case JSON_parse baseHost t of Inl e \<Rightarrow> Inr JUndefined | Inr v \<Rightarrow> Inr v),
        modify := (\<lambda>d p v. if p = [] then Inr (serialize baseHost [] v)
                            else Inl (Thrown (js ''no such path'')))\<rparr>"

definition throwingHost :: "(jsstring, jsstring) host" where
  "throwingHost = exampleHost\<lparr>parse := (\<lambda>t. Inl (Thrown (js ''parse'')))\<rparr>"

text \<open>The document \<^verbatim>\<open>{"a": 1, "b": [2]}\<close> and its root node, whose row for \<^verbatim>\<open>b\<close> is
  the array the modal does not show.\<close>

definition exampleDoc :: jsstring where
  "exampleDoc = js ''{'' @ dq @ js ''a'' @ dq @ js '': 1, '' @ dq @ js ''b'' @ dq @ js '': [2]}''"

definition exampleRows :: "jsstring node_row list" where
  "exampleRows =
     [\<lparr>row_key = Some (js ''a''), row_value = JNum (js ''1''), row_type = js ''number''\<rparr>,
      \<lparr>row_key = Some (js ''b''), row_value = JStr (js ''[1 item]''), row_type = js ''array''\<rparr>]"

definition exampleNode :: "jsstring node" where
  "exampleNode = \<lparr>node_id = js ''1'', node_text = exampleRows, node_path = Some []\<rparr>"

text \<open>The modal in edit mode, the text area holding \<^verbatim>\<open>{"a": 5}\<close>.\<close>

definition exampleModal :: "jsstring modal" where
  "exampleModal =
     \<lparr>nodeData = Some exampleNode, json = exampleDoc, opened = True, isEditing = True,
      value' = js ''{'' @ dq @ js ''a'' @ dq @ js '': 5}'', error = None\<rparr>"

text \<open>The document after that edit: \<^verbatim>\<open>a\<close> is 5 and \<^verbatim>\<open>b\<close> is kept.\<close>

definition exampleSaved :: jsstring where
  "exampleSaved =
     js ''{'' @ [0x0A] @ js ''  '' @ dq @ js ''a'' @ dq @ js '': 5,'' @ [0x0A]
     @ js ''  '' @ dq @ js ''b'' @ dq @ js '': ['' @ [0x0A] @ js ''    2'' @ [0x0A] @ js ''  ]''
     @ [0x0A] @ js ''}''"

text \<open>Rows of the document \<^verbatim>\<open>{"__proto__": 5, "a": 1}\<close>.\<close>

definition protoRows :: "jsstring node_row list" where
  "protoRows =
     [\<lparr>row_key = Some (js ''__proto__''), row_value = JNum (js ''5''), row_type = js ''number''\<rparr>,
      \<lparr>row_key = Some (js ''a''), row_value = JNum (js ''1''), row_type = js ''number''\<rparr>]"

section \<open>Properties\<close>

subsection \<open>Objects as property lists\<close>

lemma map_of_replaceKey:
  "k \<in> fst ` set ps \<Longrightarrow> map_of (replaceKey k v ps) = (map_of ps)(k \<mapsto> v)"
proof (induction ps)
  case Nil
  then show ?case by simp
next
  case (Cons p ps)
  show ?case
  proof (cases "fst p = k")
    case True
    then show ?thesis by (cases p) auto
  next
    case False
    with Cons.prems have "k \<in> fst ` set ps" by auto
    with Cons.IH False show ?thesis by (cases p) auto
  qed
qed

lemma keys_replaceKey: "map fst (replaceKey k v ps) = map fst ps"
  by (induction ps) auto

lemma map_of_insertKey:
  "k \<notin> fst ` set ps \<Longrightarrow> map_of (insertKey k v ps) = (map_of ps)(k \<mapsto> v)"
  by (induction ps) (auto simp: fun_eq_iff)

lemma keys_insertKey: "fst ` set (insertKey k v ps) = insert k (fst ` set ps)"
  by (induction ps) auto

lemma distinct_insertKey:
  "k \<notin> fst ` set ps \<Longrightarrow> distinct (map fst ps) \<Longrightarrow> distinct (map fst (insertKey k v ps))"
proof (induction ps)
  case Nil
  then show ?case by simp
next
  case (Cons p ps)
  have "fst p \<notin> fst ` set (insertKey k v ps)"
    using Cons.prems by (simp add: keys_insertKey) auto
  with Cons show ?case by simp
qed

lemma map_of_defineProperty: "map_of (defineProperty ps k v) = (map_of ps)(k \<mapsto> v)"
  by (simp add: defineProperty_def map_of_replaceKey map_of_insertKey)

lemma distinct_defineProperty:
  "distinct (map fst ps) \<Longrightarrow> distinct (map fst (defineProperty ps k v))"
  by (simp add: defineProperty_def keys_replaceKey distinct_insertKey)

lemma map_of_defineAll:
  "map_of (foldl (\<lambda>acc p. defineProperty acc (fst p) (snd p)) acc xs) = map_of acc ++ map_of (rev xs)"
  by (induction xs arbitrary: acc)
     (auto simp: map_of_defineProperty fun_eq_iff map_add_def split: option.splits)

lemma distinct_defineAll:
  "distinct (map fst acc) \<Longrightarrow>
   distinct (map fst (foldl (\<lambda>acc p. defineProperty acc (fst p) (snd p)) acc xs))"
  by (induction xs arbitrary: acc) (auto simp: distinct_defineProperty)

lemma map_of_rev_distinct: "distinct (map fst xs) \<Longrightarrow> map_of (rev xs) = map_of xs"
  by (subst map_of_inject_set) (simp_all add: rev_map [symmetric])

lemma map_of_spread:
  "distinct (map fst a) \<Longrightarrow> distinct (map fst b) \<Longrightarrow> map_of (spread a b) = map_of a ++ map_of b"
  by (simp add: spread_def map_of_defineAll map_of_rev_distinct)

lemma distinct_spread: "distinct (map fst (spread a b))"
  by (simp add: spread_def distinct_defineAll)

subsection \<open>\<^verbatim>\<open>JSON.parse\<close> makes objects of distinct keys\<close>

lemma deliver_keys:
  "deliver v st = Some s' \<Longrightarrow> list_all frameKeys st \<Longrightarrow> distinctKeys v \<Longrightarrow> stateKeys s'"
  by (induction v st rule: deliver.induct) (auto simp: distinct_defineProperty)

lemma scalar_keys: "scalar t = Some v \<Longrightarrow> distinctKeys v"
  by (cases t) auto

lemma startValue_keys:
  "startValue t st = Some s' \<Longrightarrow> list_all frameKeys st \<Longrightarrow> stateKeys s'"
  by (cases t) (auto split: option.splits elim: deliver_keys)

lemma pstep_keys: "stateKeys s \<Longrightarrow> pstep s t = Some s' \<Longrightarrow> stateKeys s'"
proof (induction s t rule: pstep.induct)
  case (1 v t)
  then show ?case by simp
next
  case (2 st t)
  then show ?case by (auto elim: startValue_keys)
next
  case (3 st t)
  then show ?case
    by (auto split: token.splits list.splits frame.splits elim: startValue_keys deliver_keys)
next
  case (4 st t)
  then show ?case
    by (auto split: token.splits list.splits frame.splits elim: deliver_keys)
next
  case (5 st t)
  then show ?case by (auto split: token.splits list.splits frame.splits)
next
  case (6 st t)
  then show ?case by (auto split: token.splits)
next
  case (7 st t)
  then show ?case
    by (auto split: token.splits list.splits frame.splits elim: deliver_keys)
qed

lemma prun_keys: "stateKeys s \<Longrightarrow> prun s ts = Some s' \<Longrightarrow> stateKeys s'"
  by (induction ts arbitrary: s) (auto split: option.splits dest: pstep_keys)

lemma JSON_parse_keys: "JSON_parse h v = Inr (JObj ps) \<Longrightarrow> distinct (map fst ps)"
proof -
  assume a: "JSON_parse h v = Inr (JObj ps)"
  then obtain ts where "prun (Run WantValue []) ts = Some (Done (JObj ps))"
    by (auto simp: JSON_parse_def split: option.splits pstate.splits)
  from prun_keys [OF _ this] show ?thesis by simp
qed

lemma editedValue_keys: "editedValue h v = Inr (JObj ps) \<Longrightarrow> distinct (map fst ps)"
  by (auto simp: editedValue_def Let_def split: sum.splits if_splits dest: JSON_parse_keys)

subsection \<open>The merge of the edited object into the original one\<close>

text \<open>
  Claim C1. In \<^verbatim>\<open>handleSave\<close>, when the value at the node's path is an object (of
  distinct keys, as every object the library's \<open>parse\<close> can return) and the edited text
  denotes an object, the value handed to \<open>modify\<close>, which the patched document is
  computed from, is the spread of the two: a key has the edited object's value when
  the edited object has it and the original object's value otherwise, so every field
  of the original that the edited object lacks is kept.
\<close>

theorem merge_keeps_original_fields:
  assumes "distinct (map fst orig)"
    and "getValueAtPath h (json s) (case node_path nd of None \<Rightarrow> [] | Some p \<Rightarrow> p) = JObj orig"
    and "editedValue h (value' s) = Inr (JObj edited)"
  shows "valueToSet (JObj orig) (JObj edited) = JObj (spread orig edited)
    \<and> newJson h s nd =
        (case modify h (json s) (case node_path nd of None \<Rightarrow> [] | Some p \<Rightarrow> p)
                (JObj (spread orig edited)) of
           Inl e \<Rightarrow> Inl e
         | Inr edits \<Rightarrow> applyEdits h (json s) edits)
    \<and> distinct (map fst (spread orig edited))
    \<and> (\<forall>k. map_of (spread orig edited) k =
          (case map_of edited k of Some v \<Rightarrow> Some v | None \<Rightarrow> map_of orig k))
    \<and> (\<forall>k v. map_of orig k = Some v \<and> map_of edited k = None
          \<longrightarrow> map_of (spread orig edited) k = Some v)"
proof -
  have v: "valueToSet (JObj orig) (JObj edited) = JObj (spread orig edited)"
    by (simp add: valueToSet_def)
  have n: "newJson h s nd =
        (case modify h (json s) (case node_path nd of None \<Rightarrow> [] | Some p \<Rightarrow> p)
                (JObj (spread orig edited)) of
           Inl e \<Rightarrow> Inl e
         | Inr edits \<Rightarrow> applyEdits h (json s) edits)"
    using assms(2,3) v by (simp add: newJson_def Let_def)
  have "distinct (map fst edited)"
    using assms(3) by (rule editedValue_keys)
  with assms(1) have m: "map_of (spread orig edited) k =
          (case map_of edited k of Some v \<Rightarrow> Some v | None \<Rightarrow> map_of orig k)" for k
    by (simp add: map_of_spread map_add_def)
  show ?thesis using v n m by (simp add: distinct_spread)
qed

theorem merge_keeps_original_fields_witness:
  "distinct (map fst [(js ''a'', JNum (js ''1'')), (js ''b'', JArr [JNum (js ''2'')])])
   \<and> getValueAtPath exampleHost (json exampleModal)
        (case node_path exampleNode of None \<Rightarrow> [] | Some p \<Rightarrow> p)
       = JObj [(js ''a'', JNum (js ''1'')), (js ''b'', JArr [JNum (js ''2'')])]
   \<and> editedValue exampleHost (value' exampleModal) = Inr (JObj [(js ''a'', JNum (js ''5''))])
   \<and> valueToSet (JObj [(js ''a'', JNum (js ''1'')), (js ''b'', JArr [JNum (js ''2'')])])
        (JObj [(js ''a'', JNum (js ''5''))])
       = JObj [(js ''a'', JNum (js ''5'')), (js ''b'', JArr [JNum (js ''2'')])]
   \<and> newJson exampleHost exampleModal exampleNode = Inr exampleSaved"
proof -
  let ?orig = "[(js ''a'', JNum (js ''1'')), (js ''b'', JArr [JNum (js ''2'')])]"
  let ?edited = "[(js ''a'', JNum (js ''5''))]"
  have a: "distinct (map fst ?orig)" by (simp add: js_def)
  have c: "getValueAtPath exampleHost (json exampleModal)
        (case node_path exampleNode of None \<Rightarrow> [] | Some p \<Rightarrow> p) = JObj ?orig"
    by code_simp
  have d: "editedValue exampleHost (value' exampleModal) = Inr (JObj ?edited)"
    by code_simp
  have s: "spread ?orig ?edited = [(js ''a'', JNum (js ''5'')), (js ''b'', JArr [JNum (js ''2'')])]"
    by code_simp
  have m: "modify exampleHost (json exampleModal)
             (case node_path exampleNode of None \<Rightarrow> [] | Some p \<Rightarrow> p)
             (JObj [(js ''a'', JNum (js ''5'')), (js ''b'', JArr [JNum (js ''2'')])])
           = Inr exampleSaved"
    by code_simp
  have e: "applyEdits exampleHost (json exampleModal) exampleSaved = Inr exampleSaved"
    by code_simp
  from merge_keeps_original_fields [OF a c d]
  show ?thesis using a c d s m e by simp
qed

subsection \<open>The path as text\<close>

lemma join_brackets:
  "xs \<noteq> [] \<Longrightarrow>
   js ''['' @ join (js ''][''  ) xs @ js '']'' = concat (map (\<lambda>x. js ''['' @ x @ js '']'') xs)"
  by (induction "js ''][''  " xs rule: join.induct) (auto simp: js_def)

lemma joinValues_segments:
  "joinValues h sep
     (map (\<lambda>seg. case seg of SegNum n \<Rightarrow> JNum n | SegStr s \<Rightarrow> JStr ([0x22] @ s @ [0x22])) p)
   = join sep (map (segmentText h) p)"
  unfolding joinValues_def
  by (rule arg_cong [where f = "join sep"])
     (induction p, auto simp: segmentText_def dq_def split: segment.splits)

text \<open>
  Claim C6. \<^verbatim>\<open>jsonPathToString\<close> is \<^verbatim>\<open>$\<close> for a missing and for an empty path;
  for any other path it is \<^verbatim>\<open>$[\<close>, the texts of the segments joined by \<^verbatim>\<open>][\<close>, and
  \<^verbatim>\<open>]\<close>, a numeric segment bare and a string segment between double quotes: each
  segment stands in brackets of its own after the \<^verbatim>\<open>$\<close>. The path of the one
  segment \<^verbatim>\<open>customer\<close> gives \<^verbatim>\<open>$["customer"]\<close>.
\<close>

theorem jsonPathToString_format:
  "jsonPathToString h None = js ''$''
   \<and> jsonPathToString h (Some []) = js ''$''
   \<and> jsonPathToString h (Some (seg # segs)) =
       js ''$['' @ join (js ''][''  ) (map (segmentText h) (seg # segs)) @ js '']''
   \<and> jsonPathToString h (Some (seg # segs)) =
       js ''$'' @ concat (map (\<lambda>x. js ''['' @ segmentText h x @ js '']'') (seg # segs))
   \<and> jsonPathToString h (Some [SegStr (js ''customer'')]) =
       js ''$['' @ dq @ js ''customer'' @ dq @ js '']''"
proof -
  have a: "jsonPathToString h (Some (x # xs)) =
       js ''$['' @ join (js ''][''  ) (map (segmentText h) (x # xs)) @ js '']''" for x xs
    unfolding jsonPathToString_def Let_def joinValues_segments by simp
  have b: "js ''$['' @ t = js ''$'' @ (js ''['' @ t)" for t
    by (simp add: js_def)
  have c: "jsonPathToString h (Some (seg # segs)) =
       js ''$'' @ concat (map (\<lambda>x. js ''['' @ segmentText h x @ js '']'') (seg # segs))"
    unfolding a b by (subst join_brackets) (simp_all add: comp_def)
  have d: "jsonPathToString h (Some [SegStr (js ''customer'')]) =
       js ''$['' @ dq @ js ''customer'' @ dq @ js '']''"
    unfolding a by (simp add: segmentText_def)
  show ?thesis using a c d by (simp add: jsonPathToString_def)
qed

subsection \<open>The decimal text of an index\<close>

declare natText.simps [simp del]

lemma below_ten:
  "(m::nat) < 10 \<Longrightarrow> m = 0 \<or> m = 1 \<or> m = 2 \<or> m = 3 \<or> m = 4 \<or> m = 5 \<or> m = 6 \<or> m = 7 \<or> m = 8 \<or> m = 9"
  by arith

lemma digit_char: "m < 10 \<Longrightarrow> isDigit (digitChar m)"
  using below_ten [of m] by (auto simp: isDigit_def digitChar_def)

lemma digit_uint: "m < 10 \<Longrightarrow> uint (digitChar m) = 48 + int m"
  using below_ten [of m] by (auto simp: digitChar_def)

lemma digit_zero: "m < 10 \<Longrightarrow> (digitChar m = 0x30) = (m = 0)"
  using below_ten [of m] by (auto simp: digitChar_def)

lemma natText_digits: "list_all isDigit (natText n)"
proof (induction n rule: natText.induct)
  case (1 n)
  show ?case
  proof (cases "n < 10")
    case True
    then show ?thesis by (simp add: natText.simps [of n] digit_char)
  next
    case False
    with 1 show ?thesis by (simp add: natText.simps [of n] digit_char)
  qed
qed

lemma decimalValue_snoc: "decimalValue (s @ [c]) = 10 * decimalValue s + (uint c - 48)"
  by (simp add: decimalValue_def)

lemma decimalValue_natText: "decimalValue (natText n) = int n"
proof (induction n rule: natText.induct)
  case (1 n)
  show ?case
  proof (cases "n < 10")
    case True
    then show ?thesis by (simp add: natText.simps [of n] decimalValue_def digit_uint)
  next
    case False
    with 1 have "decimalValue (natText (n div 10)) = int (n div 10)" by simp
    with False show ?thesis
      by (simp add: natText.simps [of n] decimalValue_snoc digit_uint zdiv_int zmod_int)
  qed
qed

lemma natText_head:
  "\<exists>c cs. natText n = c # cs \<and> (c = 0x30 \<longrightarrow> n = 0 \<and> cs = [])"
proof (induction n rule: natText.induct)
  case (1 n)
  show ?case
  proof (cases "n < 10")
    case True
    then show ?thesis by (simp add: natText.simps [of n] digit_zero)
  next
    case False
    with 1 obtain c cs where "natText (n div 10) = c # cs" "c = 0x30 \<longrightarrow> n div 10 = 0 \<and> cs = []"
      by blast
    with False show ?thesis by (auto simp: natText.simps [of n])
  qed
qed

lemma arrayIndex_natText: "n < 4294967295 \<Longrightarrow> arrayIndex (natText n) = Some (int n)"
proof -
  assume b: "n < 4294967295"
  obtain c cs where h: "natText n = c # cs" "c = 0x30 \<longrightarrow> n = 0 \<and> cs = []"
    using natText_head by blast
  have d: "list_all isDigit (c # cs)" using natText_digits [of n] h(1) by simp
  have v: "decimalValue (c # cs) = int n" using decimalValue_natText [of n] h(1) by simp
  show ?thesis
    unfolding arrayIndex_def h(1) using d v h(2) b by auto
qed

lemma digit_bounds: "isDigit c \<Longrightarrow> 48 \<le> uint c \<and> uint c \<le> 57"
  by (simp add: isDigit_def word_le_def)

lemma digitChar_of_digit: "isDigit c \<Longrightarrow> digitChar (nat (uint c - 48)) = c"
proof -
  assume "isDigit c"
  then have "48 \<le> uint c" by (simp add: digit_bounds)
  then have "48 + nat (uint c - 48) = nat (uint c)" by linarith
  then have "(of_nat (48 + nat (uint c - 48)) :: jschar) = of_nat (nat (uint c))"
    by (simp only:)
  also have "\<dots> = c" by simp
  finally show ?thesis by (simp only: digitChar_def)
qed

lemma decimalValue_Cons_ge:
  "list_all isDigit cs \<Longrightarrow> 0 \<le> a \<Longrightarrow> a \<le> foldl (\<lambda>a c. 10 * a + (uint c - 48)) a cs"
proof (induction cs arbitrary: a)
  case Nil
  then show ?case by simp
next
  case (Cons c cs)
  have "a \<le> 10 * a + (uint c - 48)"
    using Cons.prems digit_bounds [of c] by simp
  also have "\<dots> \<le> foldl (\<lambda>a c. 10 * a + (uint c - 48)) (10 * a + (uint c - 48)) cs"
    using Cons.prems digit_bounds [of c] by (intro Cons.IH) simp_all
  finally show ?case by simp
qed

lemma decimalValue_positive:
  "list_all isDigit (c # cs) \<Longrightarrow> c \<noteq> 0x30 \<Longrightarrow> 1 \<le> decimalValue (c # cs)"
proof -
  assume d: "list_all isDigit (c # cs)" and z: "c \<noteq> 0x30"
  have "uint c \<noteq> 48"
  proof
    assume b: "uint c = 48"
    have "c = word_of_int (uint c)" by simp
    with b have "c = 48" by simp
    with z show False by simp
  qed
  then have "1 \<le> uint c - 48" using d digit_bounds [of c] by simp
  moreover have "uint c - 48 \<le> foldl (\<lambda>a c. 10 * a + (uint c - 48)) (uint c - 48) cs"
    using d digit_bounds [of c] by (intro decimalValue_Cons_ge) simp_all
  ultimately show ?thesis by (simp add: decimalValue_def)
qed

lemma natText_of_canonical:
  "list_all isDigit k \<Longrightarrow> k \<noteq> [] \<Longrightarrow> hd k \<noteq> 0x30 \<or> length k = 1 \<Longrightarrow>
   natText (nat (decimalValue k)) = k"
proof (induction k rule: rev_induct)
  case Nil
  then show ?case by simp
next
  case (snoc c ks)
  have c: "isDigit c" using snoc.prems(1) by simp
  show ?case
  proof (cases ks)
    case Nil
    have "nat (uint c - 48) < 10" using digit_bounds [OF c] by linarith
    then show ?thesis
      using Nil c by (simp add: decimalValue_def natText.simps [of "nat (uint c - 48)"] digitChar_of_digit)
  next
    case (Cons d ds)
    have h: "d \<noteq> 0x30" using snoc.prems(3) Cons by simp
    have dig: "list_all isDigit (d # ds)" using snoc.prems(1) Cons by simp
    have pos: "1 \<le> decimalValue ks" using decimalValue_positive [OF dig h] Cons by simp
    have ih: "natText (nat (decimalValue ks)) = ks"
      using snoc.IH dig h Cons by simp
    let ?v = "10 * decimalValue ks + (uint c - 48)"
    have v: "decimalValue (ks @ [c]) = ?v" by (rule decimalValue_snoc)
    have e: "0 \<le> uint c - 48" "uint c - 48 < 10"
      using digit_bounds [OF c] by linarith+
    have split: "nat ?v = 10 * nat (decimalValue ks) + nat (uint c - 48)"
      using pos e by (simp add: nat_add_distrib nat_mult_distrib)
    have small: "nat (uint c - 48) < 10" using e by linarith
    have large: "1 \<le> nat (decimalValue ks)" using pos by linarith
    have big: "\<not> nat ?v < 10" unfolding split using large by linarith
    have q: "nat ?v div 10 = nat (decimalValue ks)"
      unfolding split using small by simp
    have r: "nat ?v mod 10 = nat (uint c - 48)"
      unfolding split using small by simp
    show ?thesis
      unfolding v using big q r ih c
      by (simp add: natText.simps [of "nat ?v"] digitChar_of_digit)
  qed
qed

lemma arrayIndex_text: "arrayIndex k = Some i \<Longrightarrow> 0 \<le> i \<and> k = natText (nat i)"
proof -
  assume a: "arrayIndex k = Some i"
  then obtain c cs where k: "k = c # cs" by (cases k) (auto simp: arrayIndex_def)
  from a k have d: "list_all isDigit k" and z: "c \<noteq> 0x30 \<or> cs = []" and i: "i = decimalValue k"
    by (auto simp: arrayIndex_def split: if_splits)
  have "natText (nat (decimalValue k)) = k"
    using d z k by (intro natText_of_canonical) auto
  moreover have "0 \<le> decimalValue k"
    using decimalValue_Cons_ge [of k 0] d by (simp add: decimalValue_def)
  ultimately show ?thesis using i by simp
qed

subsection \<open>The value at a path\<close>

lemma walk_snoc:
  "walk h cur (path @ [seg]) =
     (case walk h cur path of Inl e \<Rightarrow> Inl e | Inr c \<Rightarrow> getMember h c (toPropertyKey h seg))"
  by (induction path arbitrary: cur) (auto split: sum.splits)

lemma length_not_index: "arrayIndex (js ''length'') = None"
  by (simp add: arrayIndex_def js_def isDigit_def)

lemma not_natText: "\<not> list_all isDigit k \<Longrightarrow> natText i \<noteq> k"
  using natText_digits [of i] by auto

lemma length_not_natText: "natText i \<noteq> js ''length''"
  by (rule not_natText) (simp add: js_def isDigit_def)

lemma element_own:
  "i < length xs \<Longrightarrow> i < 4294967295 \<Longrightarrow> ownMember h (JArr xs) (natText i) = Some (xs ! i)"
  by (simp add: arrayIndex_natText length_not_natText)

lemma element_not_own:
  "k \<noteq> js ''length'' \<Longrightarrow> \<forall>i < length xs. k \<noteq> natText i \<Longrightarrow> ownMember h (JArr xs) k = None"
proof -
  assume l: "k \<noteq> js ''length''" and n: "\<forall>i < length xs. k \<noteq> natText i"
  have "\<not> i < int (length xs)" if "arrayIndex k = Some i" for i
  proof
    assume b: "i < int (length xs)"
    from arrayIndex_text [OF that] have p: "0 \<le> i" "k = natText (nat i)" by simp_all
    with b have "nat i < length xs" by linarith
    with n p(2) show False by blast
  qed
  with l show ?thesis by (auto split: option.splits)
qed

lemma unit_own:
  "i < length s \<Longrightarrow> i < 4294967295 \<Longrightarrow> ownMember h (JStr s) (natText i) = Some (JStr [s ! i])"
  by (simp add: arrayIndex_natText length_not_natText)

lemma unit_not_own:
  "k \<noteq> js ''length'' \<Longrightarrow> \<forall>i < length s. k \<noteq> natText i \<Longrightarrow> ownMember h (JStr s) k = None"
proof -
  assume l: "k \<noteq> js ''length''" and n: "\<forall>i < length s. k \<noteq> natText i"
  have "\<not> i < int (length s)" if "arrayIndex k = Some i" for i
  proof
    assume b: "i < int (length s)"
    from arrayIndex_text [OF that] have p: "0 \<le> i" "k = natText (nat i)" by simp_all
    with b have "nat i < length s" by linarith
    with n p(2) show False by blast
  qed
  with l show ?thesis by (auto split: option.splits)
qed

lemma getMember_throws:
  "(\<exists>e. getMember h c k = Inl e)
     = (c = JUndefined \<or> c = JNull \<or> (ownMember h c k = None \<and> (\<exists>e. inherited h c k = Inl e)))"
  by (auto simp: getMember_def split: option.splits)

text \<open>
  Claim C8. \<^verbatim>\<open>getValueAtPath\<close> returns a value for every document text and every
  path, whatever happens inside its \<^verbatim>\<open>try\<close>: \<^verbatim>\<open>null\<close> when the parse throws,
  \<^verbatim>\<open>null\<close> when a step of the traversal throws, and otherwise the value the traversal
  reaches. The traversal indexes the parsed document by the segments in order: the
  empty path reaches the document, and a path with one more segment reaches the
  member, for the segment's key (a string segment itself, a numeric segment's text),
  of what the path reaches. A member access throws on \<^verbatim>\<open>null\<close> and \<^verbatim>\<open>undefined\<close>.
  Of an object it returns the property of that key; of an array the element whose
  index the key is the decimal text of, and the \<^verbatim>\<open>length\<close>; of a string the code
  unit at the index, and the \<^verbatim>\<open>length\<close>. For every other key, and of a boolean, a
  number or a built-in value, it returns what the value inherits, or throws what the
  inherited getter throws.
\<close>

theorem getValueAtPath_total:
  "(parse h document = Inl e \<longrightarrow> getValueAtPath h document path = JNull)
   \<and> (parse h document = Inr parsed \<and> walk h parsed path = Inl e
        \<longrightarrow> getValueAtPath h document path = JNull)
   \<and> (parse h document = Inr parsed \<and> walk h parsed path = Inr v
        \<longrightarrow> getValueAtPath h document path = v)
   \<and> walk h parsed [] = Inr parsed
   \<and> walk h parsed (path @ [seg]) =
       (case walk h parsed path of
          Inl e \<Rightarrow> Inl e
        | Inr current \<Rightarrow> getMember h current (toPropertyKey h seg))
   \<and> toPropertyKey h (SegStr k) = k
   \<and> toPropertyKey h (SegNum n) = numToString h n
   \<and> getMember h JUndefined k = Inl TypeError
   \<and> getMember h JNull k = Inl TypeError
   \<and> (map_of ps k = Some v \<longrightarrow> getMember h (JObj ps) k = Inr v)
   \<and> (map_of ps k = None \<longrightarrow> getMember h (JObj ps) k = inherited h (JObj ps) k)
   \<and> (i < length xs \<and> i < 4294967295 \<longrightarrow> getMember h (JArr xs) (natText i) = Inr (xs ! i))
   \<and> getMember h (JArr xs) (js ''length'') = Inr (JNum (numOfNat h (length xs)))
   \<and> (k \<noteq> js ''length'' \<and> (\<forall>i < length xs. k \<noteq> natText i)
        \<longrightarrow> getMember h (JArr xs) k = inherited h (JArr xs) k)
   \<and> (i < length s \<and> i < 4294967295 \<longrightarrow> getMember h (JStr s) (natText i) = Inr (JStr [s ! i]))
   \<and> getMember h (JStr s) (js ''length'') = Inr (JNum (numOfNat h (length s)))
   \<and> (k \<noteq> js ''length'' \<and> (\<forall>i < length s. k \<noteq> natText i)
        \<longrightarrow> getMember h (JStr s) k = inherited h (JStr s) k)
   \<and> getMember h (JBool b) k = inherited h (JBool b) k
   \<and> getMember h (JNum n) k = inherited h (JNum n) k
   \<and> getMember h (JBuiltin kind name) k = inherited h (JBuiltin kind name) k
   \<and> ((\<exists>e. getMember h current k = Inl e)
        = (current = JUndefined \<or> current = JNull
           \<or> (ownMember h current k = None \<and> (\<exists>e. inherited h current k = Inl e))))"
proof -
  have a: "(parse h document = Inl e \<longrightarrow> getValueAtPath h document path = JNull)
   \<and> (parse h document = Inr parsed \<and> walk h parsed path = Inl e
        \<longrightarrow> getValueAtPath h document path = JNull)
   \<and> (parse h document = Inr parsed \<and> walk h parsed path = Inr v
        \<longrightarrow> getValueAtPath h document path = v)"
    by (simp add: getValueAtPath_def valueAtPath_def)
  have o: "(map_of ps k = Some v \<longrightarrow> getMember h (JObj ps) k = Inr v)
   \<and> (map_of ps k = None \<longrightarrow> getMember h (JObj ps) k = inherited h (JObj ps) k)"
    by (simp add: getMember_def)
  have e1: "i < length xs \<and> i < 4294967295 \<longrightarrow> getMember h (JArr xs) (natText i) = Inr (xs ! i)"
    by (simp add: getMember_def element_own del: ownMember.simps)
  have e2: "getMember h (JArr xs) (js ''length'') = Inr (JNum (numOfNat h (length xs)))"
    by (simp add: getMember_def)
  have e3: "k \<noteq> js ''length'' \<and> (\<forall>i < length xs. k \<noteq> natText i)
        \<longrightarrow> getMember h (JArr xs) k = inherited h (JArr xs) k"
    by (simp add: getMember_def element_not_own del: ownMember.simps)
  have u1: "i < length s \<and> i < 4294967295 \<longrightarrow> getMember h (JStr s) (natText i) = Inr (JStr [s ! i])"
    by (simp add: getMember_def unit_own del: ownMember.simps)
  have u2: "getMember h (JStr s) (js ''length'') = Inr (JNum (numOfNat h (length s)))"
    by (simp add: getMember_def)
  have u3: "k \<noteq> js ''length'' \<and> (\<forall>i < length s. k \<noteq> natText i)
        \<longrightarrow> getMember h (JStr s) k = inherited h (JStr s) k"
    by (simp add: getMember_def unit_not_own del: ownMember.simps)
  have p: "getMember h (JBool b) k = inherited h (JBool b) k
   \<and> getMember h (JNum n) k = inherited h (JNum n) k
   \<and> getMember h (JBuiltin kind name) k = inherited h (JBuiltin kind name) k
   \<and> getMember h JUndefined k = Inl TypeError
   \<and> getMember h JNull k = Inl TypeError"
    by (simp add: getMember_def)
  have t: "toPropertyKey h (SegStr k) = k \<and> toPropertyKey h (SegNum n) = numToString h n"
    by (simp add: toPropertyKey_def)
  show ?thesis
    using a o e1 e2 e3 u1 u2 u3 p t walk_snoc [of h parsed path seg] getMember_throws [of h current k]
    by simp
qed

theorem getValueAtPath_total_witness:
  "parse exampleHost exampleDoc
     = Inr (JObj [(js ''a'', JNum (js ''1'')), (js ''b'', JArr [JNum (js ''2'')])])
   \<and> getValueAtPath exampleHost exampleDoc [SegStr (js ''b''), SegNum (js ''0'')] = JNum (js ''2'')
   \<and> getValueAtPath exampleHost exampleDoc [SegStr (js ''b''), SegStr (js ''length'')]
       = JNum (js ''1'')
   \<and> walk exampleHost (JObj [(js ''a'', JNum (js ''1'')), (js ''b'', JArr [JNum (js ''2'')])])
        [SegStr (js ''b''), SegNum (js ''1''), SegNum (js ''0'')] = Inl TypeError
   \<and> getValueAtPath exampleHost exampleDoc [SegStr (js ''b''), SegNum (js ''1''), SegNum (js ''0'')]
       = JNull
   \<and> parse throwingHost exampleDoc = Inl (Thrown (js ''parse''))
   \<and> getValueAtPath throwingHost exampleDoc [] = JNull
   \<and> getMember exampleHost (JObj [(js ''a'', JNum (js ''1'')), (js ''b'', JArr [JNum (js ''2'')])])
        (js ''b'') = Inr (JArr [JNum (js ''2'')])
   \<and> getMember exampleHost (JObj [(js ''a'', JNum (js ''1'')), (js ''b'', JArr [JNum (js ''2'')])])
        (js ''c'') = Inr JUndefined
   \<and> getMember exampleHost (JArr [JNum (js ''2'')]) (js ''0'') = Inr (JNum (js ''2''))
   \<and> getMember exampleHost (JArr [JNum (js ''2'')]) (js ''1'') = Inr JUndefined
   \<and> getMember exampleHost (JStr (js ''ab'')) (js ''1'') = Inr (JStr (js ''b''))
   \<and> getMember exampleHost (JStr (js ''ab'')) (js ''x'') = Inr JUndefined"
proof -
  let ?d = "JObj [(js ''a'', JNum (js ''1'')), (js ''b'', JArr [JNum (js ''2'')])]"
  let ?p1 = "[SegStr (js ''b''), SegNum (js ''0'')]"
  let ?p2 = "[SegStr (js ''b''), SegNum (js ''1''), SegNum (js ''0'')]"
  let ?p3 = "[SegStr (js ''b''), SegStr (js ''length'')]"
  have p: "parse exampleHost exampleDoc = Inr ?d" by code_simp
  have w1: "walk exampleHost ?d ?p1 = Inr (JNum (js ''2''))" by code_simp
  have w2: "walk exampleHost ?d ?p2 = Inl TypeError" by code_simp
  have w3: "walk exampleHost ?d ?p3 = Inr (JNum (js ''1''))" by code_simp
  have t: "parse throwingHost exampleDoc = Inl (Thrown (js ''parse''))" by code_simp
  note total = getValueAtPath_total
  from total [of exampleHost exampleDoc TypeError ?p1 ?d "JNum (js ''2'')"] p w1
  have g1: "getValueAtPath exampleHost exampleDoc ?p1 = JNum (js ''2'')"
    by blast
  from total [of exampleHost exampleDoc TypeError ?p2 ?d] p w2
  have g2: "getValueAtPath exampleHost exampleDoc ?p2 = JNull"
    by blast
  from total [of exampleHost exampleDoc TypeError ?p3 ?d "JNum (js ''1'')"] p w3
  have g3: "getValueAtPath exampleHost exampleDoc ?p3 = JNum (js ''1'')"
    by blast
  from total [of throwingHost exampleDoc "Thrown (js ''parse'')" "[]"] t
  have g4: "getValueAtPath throwingHost exampleDoc [] = JNull"
    by blast
  have m1: "map_of [(js ''a'', JNum (js ''1'')), (js ''b'', JArr [JNum (js ''2'')])] (js ''b'')
            = Some (JArr [JNum (js ''2'')])"
    by (simp add: js_def)
  from total [where h = exampleHost and ps = "[(js ''a'', JNum (js ''1'')), (js ''b'', JArr [JNum (js ''2'')])]"
        and k = "js ''b''" and v = "JArr [JNum (js ''2'')]"] m1
  have o1: "getMember exampleHost ?d (js ''b'') = Inr (JArr [JNum (js ''2'')])"
    by blast
  have m2: "map_of [(js ''a'', JNum (js ''1'')), (js ''b'', JArr [JNum (js ''2'')])] (js ''c'') = None"
    by (simp add: js_def)
  have i2: "inherited exampleHost ?d (js ''c'') = Inr JUndefined" by code_simp
  from total [where h = exampleHost and ps = "[(js ''a'', JNum (js ''1'')), (js ''b'', JArr [JNum (js ''2'')])]"
        and k = "js ''c''"] m2
  have "getMember exampleHost ?d (js ''c'') = inherited exampleHost ?d (js ''c'')"
    by blast
  with i2 have o2: "getMember exampleHost ?d (js ''c'') = Inr JUndefined" by simp
  have n0: "natText 0 = js ''0''" and n1: "natText (Suc 0) = js ''1''" by code_simp+
  from total [where h = exampleHost and xs = "[JNum (js ''2'')]" and i = 0]
  have "getMember exampleHost (JArr [JNum (js ''2'')]) (natText 0) = Inr ([JNum (js ''2'')] ! 0)"
    by simp
  then have a1: "getMember exampleHost (JArr [JNum (js ''2'')]) (js ''0'') = Inr (JNum (js ''2''))"
    by (simp add: n0)
  have k1: "js ''1'' \<noteq> js ''length'' \<and> (\<forall>i < length [JNum (js ''2'')]. js ''1'' \<noteq> natText i)"
    by (simp add: n0 js_def)
  have i3: "inherited exampleHost (JArr [JNum (js ''2'')]) (js ''1'') = Inr JUndefined" by code_simp
  from total [where h = exampleHost and xs = "[JNum (js ''2'')]" and k = "js ''1''"] k1
  have "getMember exampleHost (JArr [JNum (js ''2'')]) (js ''1'')
          = inherited exampleHost (JArr [JNum (js ''2'')]) (js ''1'')"
    by blast
  with i3 have a2: "getMember exampleHost (JArr [JNum (js ''2'')]) (js ''1'') = Inr JUndefined"
    by simp
  from total [where h = exampleHost and s = "js ''ab''" and i = "Suc 0"]
  have "getMember exampleHost (JStr (js ''ab'')) (natText (Suc 0)) = Inr (JStr [js ''ab'' ! Suc 0])"
    by (simp add: js_def)
  then have s1: "getMember exampleHost (JStr (js ''ab'')) (js ''1'') = Inr (JStr (js ''b''))"
    by (simp add: n1 js_def)
  have nx: "natText i \<noteq> js ''x''" for i
    by (rule not_natText) (simp add: js_def isDigit_def)
  have "js ''x'' \<noteq> js ''length''" by (simp add: js_def)
  moreover have "\<forall>i < length (js ''ab''). js ''x'' \<noteq> natText i" by (metis nx)
  ultimately have k2: "js ''x'' \<noteq> js ''length'' \<and> (\<forall>i < length (js ''ab''). js ''x'' \<noteq> natText i)"
    by (rule conjI)
  have i4: "inherited exampleHost (JStr (js ''ab'')) (js ''x'') = Inr JUndefined" by code_simp
  from total [where h = exampleHost and s = "js ''ab''" and k = "js ''x''"] k2
  have "getMember exampleHost (JStr (js ''ab'')) (js ''x'')
          = inherited exampleHost (JStr (js ''ab'')) (js ''x'')"
    by blast
  with i4 have s2: "getMember exampleHost (JStr (js ''ab'')) (js ''x'') = Inr JUndefined"
    by simp
  show ?thesis using p w2 t g1 g2 g3 g4 o1 o2 a1 a2 s1 s2 by simp
qed

subsection \<open>The value of the edited text\<close>

lemma matchesNumeric_set:
  "matchesNumeric t = (t \<noteq> [] \<and> set t \<subseteq> insert 0x2D (insert 0x2E {c. isDigit c}))"
  by (auto simp: matchesNumeric_def list_all_iff)

lemma stripQuotes_quoted: "stripQuotes (dq @ u @ dq) = u"
  by (simp add: stripQuotes_def dq_def)

lemma stripQuotes_cases:
  "stripQuotes [] = []
   \<and> stripQuotes dq = []
   \<and> stripQuotes (dq @ u @ dq) = u
   \<and> (u \<noteq> [] \<and> last u \<noteq> 0x22 \<longrightarrow> stripQuotes (dq @ u) = u)
   \<and> (u \<noteq> [] \<and> hd u \<noteq> 0x22 \<longrightarrow> stripQuotes (u @ dq) = u)
   \<and> (u \<noteq> [] \<and> hd u \<noteq> 0x22 \<and> last u \<noteq> 0x22 \<longrightarrow> stripQuotes u = u)"
  by (cases u) (auto simp: stripQuotes_def dq_def)

text \<open>
  The value of the edited text: when the text parses as JSON, the parsed value;
  otherwise, when the trimmed text is \<^verbatim>\<open>null\<close>, \<^verbatim>\<open>true\<close> or \<^verbatim>\<open>false\<close> or consists
  only of the characters \<^verbatim>\<open>-\<close>, \<^verbatim>\<open>0\<close> to \<^verbatim>\<open>9\<close> and \<^verbatim>\<open>.\<close>, whatever \<^verbatim>\<open>JSON.parse\<close>
  makes of the trimmed text, its error included; otherwise the string that is the
  trimmed text without a leading and a trailing double quote. So the coercion throws
  exactly when the text does not parse, its trimmed text is of that literal form, and
  the trimmed text does not parse either.
\<close>

lemma editedValue_cases:
  "(JSON_parse h v = Inr x \<longrightarrow> editedValue h v = Inr x)
   \<and> (JSON_parse h v = Inl e \<and> literalLike (trim v) \<longrightarrow> editedValue h v = JSON_parse h (trim v))
   \<and> (JSON_parse h v = Inl e \<and> \<not> literalLike (trim v)
        \<longrightarrow> editedValue h v = Inr (JStr (stripQuotes (trim v))))
   \<and> ((\<exists>err. editedValue h v = Inl err)
        = ((\<exists>e. JSON_parse h v = Inl e) \<and> literalLike (trim v) \<and> (\<exists>e. JSON_parse h (trim v) = Inl e)))
   \<and> literalLike t
        = (t = js ''null'' \<or> t = js ''true'' \<or> t = js ''false''
           \<or> (t \<noteq> [] \<and> set t \<subseteq> insert 0x2D (insert 0x2E {c. isDigit c})))"
proof -
  have a: "JSON_parse h v = Inr x \<longrightarrow> editedValue h v = Inr x"
    by (simp add: editedValue_def)
  have b: "JSON_parse h v = Inl e \<and> literalLike (trim v) \<longrightarrow> editedValue h v = JSON_parse h (trim v)"
    by (simp add: editedValue_def)
  have c: "JSON_parse h v = Inl e \<and> \<not> literalLike (trim v)
        \<longrightarrow> editedValue h v = Inr (JStr (stripQuotes (trim v)))"
    by (simp add: editedValue_def)
  have d: "(\<exists>err. editedValue h v = Inl err)
        = ((\<exists>e. JSON_parse h v = Inl e) \<and> literalLike (trim v) \<and> (\<exists>e. JSON_parse h (trim v) = Inl e))"
    by (cases "JSON_parse h v") (auto simp: editedValue_def Let_def split: if_splits)
  have l: "literalLike t
        = (t = js ''null'' \<or> t = js ''true'' \<or> t = js ''false''
           \<or> (t \<noteq> [] \<and> set t \<subseteq> insert 0x2D (insert 0x2E {c. isDigit c})))"
    unfolding literalLike_def matchesNumeric_set by blast
  show ?thesis by (intro conjI a b c d l)
qed

lemma parse_version: "JSON_parse h (js ''1.2.3'') = Inl SyntaxError"
  by (simp add: JSON_parse_def js_def lexNumber_def isDigit_def isJsonWs_def digitsLength_def)

lemma parse_date: "JSON_parse h (js ''2024-01-15'') = Inl SyntaxError"
  by (simp add: JSON_parse_def js_def lexNumber_def isDigit_def isJsonWs_def digitsLength_def)

lemma trim_version: "trim (js ''1.2.3'') = js ''1.2.3''"
  by (simp add: trim_def js_def isWhiteSpace_def)

lemma trim_date: "trim (js ''2024-01-15'') = js ''2024-01-15''"
  by (simp add: trim_def js_def isWhiteSpace_def)

lemma editedValue_unparsable: "editedValue h (js ''1.2.3'') = Inl SyntaxError"
proof -
  have "literalLike (js ''1.2.3'')"
    by (simp add: literalLike_def matchesNumeric_def js_def isDigit_def)
  then show ?thesis
    by (simp add: editedValue_def parse_version trim_version)
qed

text \<open>
  Claim C3, at the edited texts \<^verbatim>\<open>1.2.3\<close> and \<^verbatim>\<open>2024-01-15\<close>. Neither parses as JSON
  (first and fifth equation), so the claim asks for a string, and so does the comment
  of the fallback in \<^verbatim>\<open>handleSave\<close>, \<^verbatim>\<open>If it fails to parse as JSON, treat as string\<close>:
  the trimmed text without surrounding quotes, which is the text itself (third and
  seventh equation). The code finds only the characters \<^verbatim>\<open>-\<close>, \<^verbatim>\<open>0\<close> to \<^verbatim>\<open>9\<close> and \<^verbatim>\<open>.\<close>
  in the trimmed text and parses it once more, which throws again: the coercion
  throws \<^verbatim>\<open>SyntaxError\<close> (second and sixth equation), whatever the host is, and the
  save ends in its \<^verbatim>\<open>catch\<close>, the error recorded and no store called (last equation,
  for every state of the modal with a selected node and that text). The text
  \<^verbatim>\<open>2024-01-15\<close> is what the modal itself shows for a node whose one row is the
  keyless string \<^verbatim>\<open>2024-01-15\<close> (fourth equation): \<^verbatim>\<open>normalizeNodeData\<close> writes such
  a row without quotes, so the text the modal puts in the text area cannot be saved
  back unchanged.
\<close>

theorem editedValue_throws_on_number_like_text:
  "JSON_parse h (js ''1.2.3'') = Inl SyntaxError
   \<and> editedValue h (js ''1.2.3'') = Inl SyntaxError
   \<and> stripQuotes (trim (js ''1.2.3'')) = js ''1.2.3''
   \<and> normalizeNodeData h
        (Some [\<lparr>row_key = None, row_value = JStr (js ''2024-01-15''), row_type = js ''string''\<rparr>])
       = js ''2024-01-15''
   \<and> JSON_parse h (js ''2024-01-15'') = Inl SyntaxError
   \<and> editedValue h (js ''2024-01-15'') = Inl SyntaxError
   \<and> stripQuotes (trim (js ''2024-01-15'')) = js ''2024-01-15''
   \<and> handleSave h (s\<lparr>nodeData := Some nd, value' := js ''2024-01-15''\<rparr>)
       = (s\<lparr>nodeData := Some nd, value' := js ''2024-01-15'', error := Some SyntaxError\<rparr>, [])"
proof -
  have l2: "literalLike (js ''2024-01-15'')"
    by (simp add: literalLike_def matchesNumeric_def js_def isDigit_def)
  have e2: "editedValue h (js ''2024-01-15'') = Inl SyntaxError"
    by (simp add: editedValue_def parse_date trim_date l2)
  have s1: "stripQuotes (js ''1.2.3'') = js ''1.2.3''"
    by (simp add: stripQuotes_def js_def)
  have s2: "stripQuotes (js ''2024-01-15'') = js ''2024-01-15''"
    by (simp add: stripQuotes_def js_def)
  have n: "normalizeNodeData h
        (Some [\<lparr>row_key = None, row_value = JStr (js ''2024-01-15''), row_type = js ''string''\<rparr>])
       = js ''2024-01-15''"
    by (simp add: normalizeNodeData_def truthyKey_def)
  have v: "value' (s\<lparr>nodeData := Some nd, value' := js ''2024-01-15''\<rparr>) = js ''2024-01-15''"
    by simp
  have nd: "nodeData (s\<lparr>nodeData := Some nd, value' := js ''2024-01-15''\<rparr>) = Some nd"
    by simp
  have "newJson h (s\<lparr>nodeData := Some nd, value' := js ''2024-01-15''\<rparr>) nd = Inl SyntaxError"
    by (simp only: newJson_def v e2 Let_def sum.case)
  then have hs: "handleSave h (s\<lparr>nodeData := Some nd, value' := js ''2024-01-15''\<rparr>)
       = (s\<lparr>nodeData := Some nd, value' := js ''2024-01-15'', error := Some SyntaxError\<rparr>, [])"
    by (simp add: handleSave_def nd)
  show ?thesis
    by (intro conjI)
       (simp_all only: parse_version parse_date editedValue_unparsable e2 trim_version trim_date s1 s2 n hs)
qed

subsection \<open>The save\<close>

lemma newJson_steps:
  "newJson h s nd =
     (case editedValue h (value' s) of
        Inl e \<Rightarrow> Inl e
      | Inr edited \<Rightarrow>
          (case modify h (json s) (case node_path nd of None \<Rightarrow> [] | Some p \<Rightarrow> p)
                  (valueToSet (getValueAtPath h (json s) (case node_path nd of None \<Rightarrow> [] | Some p \<Rightarrow> p)) edited) of
             Inl e \<Rightarrow> Inl e
           | Inr edits \<Rightarrow> applyEdits h (json s) edits))"
  by (simp add: newJson_def Let_def)

lemma handleSave_success:
  "nodeData s = Some nd \<Longrightarrow> newJson h s nd = Inr doc \<Longrightarrow>
   handleSave h s =
     (s\<lparr>isEditing := False, error := None\<rparr>,
      [SetContents doc True, SetJson doc, SetGraph doc, SetTimeout 50 (node_id nd)])"
  by (simp add: handleSave_def)

lemma handleSave_failure:
  "nodeData s = Some nd \<Longrightarrow> newJson h s nd = Inl err \<Longrightarrow>
   handleSave h s = (s\<lparr>error := Some err\<rparr>, [])"
  by (simp add: handleSave_def)

text \<open>
  Claim C2. On a successful save (the edited text has a value, \<open>modify\<close> and
  \<open>applyEdits\<close> return), the handler makes exactly these calls, in this order, all with
  the same patched document: \<^verbatim>\<open>setContents\<close> of the file store with the document and
  \<^verbatim>\<open>hasChanges\<close> true, \<^verbatim>\<open>setJson\<close> with the document, \<^verbatim>\<open>setGraph\<close> with the
  document, and the timer; it leaves edit mode and clears the error.
\<close>

theorem save_updates_three_stores:
  assumes "nodeData s = Some nd"
    and "editedValue h (value' s) = Inr edited"
    and "modify h (json s) (case node_path nd of None \<Rightarrow> [] | Some p \<Rightarrow> p)
           (valueToSet (getValueAtPath h (json s) (case node_path nd of None \<Rightarrow> [] | Some p \<Rightarrow> p)) edited)
         = Inr edits"
    and "applyEdits h (json s) edits = Inr doc"
  shows "snd (handleSave h s) =
           [SetContents doc True, SetJson doc, SetGraph doc, SetTimeout 50 (node_id nd)]
    \<and> fst (handleSave h s) = s\<lparr>isEditing := False, error := None\<rparr>"
proof -
  have "newJson h s nd = Inr doc"
    using assms(2-4) by (simp add: newJson_steps)
  with assms(1) show ?thesis by (simp add: handleSave_success)
qed

theorem save_updates_three_stores_witness:
  "nodeData exampleModal = Some exampleNode
   \<and> editedValue exampleHost (value' exampleModal) = Inr (JObj [(js ''a'', JNum (js ''5''))])
   \<and> applyEdits exampleHost (json exampleModal) exampleSaved = Inr exampleSaved
   \<and> snd (handleSave exampleHost exampleModal) =
       [SetContents exampleSaved True, SetJson exampleSaved, SetGraph exampleSaved,
        SetTimeout 50 (js ''1'')]
   \<and> isEditing (fst (handleSave exampleHost exampleModal)) = False"
proof -
  have a: "nodeData exampleModal = Some exampleNode" by (simp add: exampleModal_def)
  have b: "editedValue exampleHost (value' exampleModal) = Inr (JObj [(js ''a'', JNum (js ''5''))])"
    by code_simp
  have c: "modify exampleHost (json exampleModal) (case node_path exampleNode of None \<Rightarrow> [] | Some p \<Rightarrow> p)
           (valueToSet (getValueAtPath exampleHost (json exampleModal)
              (case node_path exampleNode of None \<Rightarrow> [] | Some p \<Rightarrow> p)) (JObj [(js ''a'', JNum (js ''5''))]))
         = Inr exampleSaved"
    by code_simp
  have d: "applyEdits exampleHost (json exampleModal) exampleSaved = Inr exampleSaved"
    by code_simp
  have i: "node_id exampleNode = js ''1''" by (simp add: exampleNode_def)
  from save_updates_three_stores [OF a b c d]
  show ?thesis using a b d i by simp
qed

lemma find_first:
  "(\<exists>n \<in> set ns. P n) \<Longrightarrow> \<exists>n. find P ns = Some n \<and> n \<in> set ns \<and> P n"
  by (induction ns) auto

text \<open>
  Claim C7. A successful save registers one timer, with delay 50 and the id of the
  saved node. When its callback runs on the graph's node list of that moment: if a
  node of the list has that id, the call is \<^verbatim>\<open>setSelectedNode\<close> of the first such
  node; if none has, the callback makes no call and the selection stays as it is.
\<close>

theorem reselect_after_save:
  "(nodeData s = Some nd \<and> newJson h s nd = Inr doc
      \<longrightarrow> SetTimeout 50 (node_id nd) \<in> set (snd (handleSave h s))
          \<and> (\<forall>d i. SetTimeout d i \<in> set (snd (handleSave h s)) \<longrightarrow> d = 50 \<and> i = node_id nd))
   \<and> ((\<exists>n \<in> set updatedNodes. node_id n = i)
      \<longrightarrow> (\<exists>n. reselect i updatedNodes = [SetSelectedNode n] \<and> n \<in> set updatedNodes
              \<and> node_id n = i \<and> find (\<lambda>n. node_id n = i) updatedNodes = Some n))
   \<and> ((\<forall>n \<in> set updatedNodes. node_id n \<noteq> i) \<longrightarrow> reselect i updatedNodes = [])"
proof -
  have a: "nodeData s = Some nd \<and> newJson h s nd = Inr doc
      \<longrightarrow> SetTimeout 50 (node_id nd) \<in> set (snd (handleSave h s))
          \<and> (\<forall>d i. SetTimeout d i \<in> set (snd (handleSave h s)) \<longrightarrow> d = 50 \<and> i = node_id nd)"
    by (auto simp: handleSave_success)
  have b: "(\<exists>n \<in> set updatedNodes. node_id n = i)
      \<longrightarrow> (\<exists>n. reselect i updatedNodes = [SetSelectedNode n] \<and> n \<in> set updatedNodes
              \<and> node_id n = i \<and> find (\<lambda>n. node_id n = i) updatedNodes = Some n)"
  proof
    assume "\<exists>n \<in> set updatedNodes. node_id n = i"
    from find_first [of updatedNodes "\<lambda>n. node_id n = i", OF this]
    obtain n where "find (\<lambda>n. node_id n = i) updatedNodes = Some n" "n \<in> set updatedNodes" "node_id n = i"
      by blast
    then show "\<exists>n. reselect i updatedNodes = [SetSelectedNode n] \<and> n \<in> set updatedNodes
              \<and> node_id n = i \<and> find (\<lambda>n. node_id n = i) updatedNodes = Some n"
      by (simp add: reselect_def)
  qed
  have c: "(\<forall>n \<in> set updatedNodes. node_id n \<noteq> i) \<longrightarrow> reselect i updatedNodes = []"
  proof
    assume "\<forall>n \<in> set updatedNodes. node_id n \<noteq> i"
    then have "find (\<lambda>n. node_id n = i) updatedNodes = None"
      by (simp add: find_None_iff)
    then show "reselect i updatedNodes = []" by (simp add: reselect_def)
  qed
  show ?thesis using a b c by blast
qed

theorem reselect_after_save_witness:
  "nodeData exampleModal = Some exampleNode
   \<and> newJson exampleHost exampleModal exampleNode = Inr exampleSaved
   \<and> SetTimeout 50 (js ''1'') \<in> set (snd (handleSave exampleHost exampleModal))
   \<and> reselect (js ''1'') [exampleNode\<lparr>node_id := js ''0''\<rparr>, exampleNode] = [SetSelectedNode exampleNode]
   \<and> reselect (js ''1'') [exampleNode\<lparr>node_id := js ''0''\<rparr>] = []"
proof -
  let ?other = "exampleNode\<lparr>node_id := js ''0''\<rparr>"
  have a: "nodeData exampleModal = Some exampleNode" by (simp add: exampleModal_def)
  have b: "newJson exampleHost exampleModal exampleNode = Inr exampleSaved" by code_simp
  have i: "node_id exampleNode = js ''1''" by (simp add: exampleNode_def)
  have j: "node_id ?other \<noteq> js ''1''" by (simp add: js_def)
  from reselect_after_save [of exampleModal exampleNode exampleHost exampleSaved "[]" "js ''1''"] a b
  have "SetTimeout 50 (node_id exampleNode) \<in> set (snd (handleSave exampleHost exampleModal))"
    by blast
  then have t: "SetTimeout 50 (js ''1'') \<in> set (snd (handleSave exampleHost exampleModal))"
    by (simp only: i)
  have f: "\<exists>n \<in> set [?other, exampleNode]. node_id n = js ''1''"
    using i by simp
  from reselect_after_save [of exampleModal exampleNode exampleHost exampleSaved "[?other, exampleNode]" "js ''1''"] f
  obtain n where n: "reselect (js ''1'') [?other, exampleNode] = [SetSelectedNode n]"
      "find (\<lambda>n. node_id n = js ''1'') [?other, exampleNode] = Some n"
    by blast
  have "find (\<lambda>n. node_id n = js ''1'') [?other, exampleNode] = Some exampleNode"
    using i j by simp
  with n have r1: "reselect (js ''1'') [?other, exampleNode] = [SetSelectedNode exampleNode]"
    by simp
  have g: "\<forall>n \<in> set [?other]. node_id n \<noteq> js ''1''"
    using j by simp
  from reselect_after_save [of exampleModal exampleNode exampleHost exampleSaved "[?other]" "js ''1''"] g
  have r2: "reselect (js ''1'') [?other] = []"
    by blast
  show ?thesis using a b t r1 r2 by simp
qed


text \<open>
  Claim C9. When a step of \<^verbatim>\<open>handleSave\<close> before the store calls throws (the value
  of the edited text, \<open>modify\<close> or \<open>applyEdits\<close>), the handler makes no call at all, so
  no store is modified; the error is recorded, and the edit mode, the edited text and
  everything else of the component stay as they were.
\<close>

theorem failed_save_is_atomic:
  assumes "nodeData s = Some nd"
    and "editedValue h (value' s) = Inl err
       \<or> (\<exists>edited. editedValue h (value' s) = Inr edited
            \<and> (modify h (json s) (case node_path nd of None \<Rightarrow> [] | Some p \<Rightarrow> p)
                  (valueToSet (getValueAtPath h (json s) (case node_path nd of None \<Rightarrow> [] | Some p \<Rightarrow> p)) edited)
                = Inl err
               \<or> (\<exists>edits. modify h (json s) (case node_path nd of None \<Rightarrow> [] | Some p \<Rightarrow> p)
                     (valueToSet (getValueAtPath h (json s) (case node_path nd of None \<Rightarrow> [] | Some p \<Rightarrow> p)) edited)
                   = Inr edits \<and> applyEdits h (json s) edits = Inl err)))"
  shows "snd (handleSave h s) = []
    \<and> fst (handleSave h s) = s\<lparr>error := Some err\<rparr>
    \<and> error (fst (handleSave h s)) = Some err
    \<and> isEditing (fst (handleSave h s)) = isEditing s
    \<and> value' (fst (handleSave h s)) = value' s
    \<and> nodeData (fst (handleSave h s)) = nodeData s
    \<and> json (fst (handleSave h s)) = json s"
proof -
  from assms(2) have "newJson h s nd = Inl err"
    by (auto simp: newJson_steps)
  with assms(1) show ?thesis by (simp add: handleSave_failure)
qed

theorem failed_save_is_atomic_witness:
  "nodeData (exampleModal\<lparr>value' := js ''1.2.3''\<rparr>) = Some exampleNode
   \<and> editedValue exampleHost (value' (exampleModal\<lparr>value' := js ''1.2.3''\<rparr>)) = Inl SyntaxError
   \<and> handleSave exampleHost (exampleModal\<lparr>value' := js ''1.2.3''\<rparr>)
       = (exampleModal\<lparr>value' := js ''1.2.3'', error := Some SyntaxError\<rparr>, [])
   \<and> isEditing (fst (handleSave exampleHost (exampleModal\<lparr>value' := js ''1.2.3''\<rparr>)))
   \<and> handleSave exampleHost
         (exampleModal\<lparr>nodeData := Some (exampleNode\<lparr>node_path := Some [SegStr (js ''a'')]\<rparr>)\<rparr>)
       = (exampleModal\<lparr>nodeData := Some (exampleNode\<lparr>node_path := Some [SegStr (js ''a'')]\<rparr>),
                        error := Some (Thrown (js ''no such path''))\<rparr>, [])"
proof -
  let ?s = "exampleModal\<lparr>value' := js ''1.2.3''\<rparr>"
  have a: "nodeData ?s = Some exampleNode" by (simp add: exampleModal_def)
  have b: "editedValue exampleHost (value' ?s) = Inl SyntaxError"
    by (simp add: editedValue_unparsable)
  have e: "isEditing ?s" by (simp add: exampleModal_def)
  from failed_save_is_atomic [of ?s exampleNode exampleHost SyntaxError, OF a] b
  have r: "snd (handleSave exampleHost ?s) = []"
     "fst (handleSave exampleHost ?s) = ?s\<lparr>error := Some SyntaxError\<rparr>"
     "isEditing (fst (handleSave exampleHost ?s)) = isEditing ?s"
    by blast+
  have r1: "handleSave exampleHost ?s = (?s\<lparr>error := Some SyntaxError\<rparr>, [])"
    using r(1,2) by (simp add: prod_eq_iff)
  let ?nd = "exampleNode\<lparr>node_path := Some [SegStr (js ''a'')]\<rparr>"
  let ?t = "exampleModal\<lparr>nodeData := Some ?nd\<rparr>"
  let ?err = "Thrown (js ''no such path'')"
  have c: "nodeData ?t = Some ?nd" by simp
  have d: "editedValue exampleHost (value' ?t) = Inr (JObj [(js ''a'', JNum (js ''5''))])"
    by code_simp
  have m: "modify exampleHost (json ?t) (case node_path ?nd of None \<Rightarrow> [] | Some p \<Rightarrow> p)
             (valueToSet
                (getValueAtPath exampleHost (json ?t) (case node_path ?nd of None \<Rightarrow> [] | Some p \<Rightarrow> p))
                (JObj [(js ''a'', JNum (js ''5''))]))
           = Inl ?err"
    by code_simp
  from failed_save_is_atomic [of ?t ?nd exampleHost ?err, OF c] d m
  have q: "snd (handleSave exampleHost ?t) = []"
     "fst (handleSave exampleHost ?t) = ?t\<lparr>error := Some ?err\<rparr>"
    by blast+
  have r2: "handleSave exampleHost ?t = (?t\<lparr>error := Some ?err\<rparr>, [])"
    using q by (simp add: prod_eq_iff)
  show ?thesis using a b e r(3) r1 r2 by simp
qed

subsection \<open>The other events\<close>

text \<open>
  Claim C10. Only a successful save with a selected node calls a store: Edit, Cancel,
  a change of the text area and the opening or closing of the modal make no call
  and leave the selected node and the document as they are, a save with no node
  selected changes nothing, and whenever an event makes a call it is a save with a
  selected node whose patched document was computed. Cancel sets the text to the
  normalized text of the selected node, clears the error and leaves edit mode.
\<close>

theorem only_successful_save_calls_stores:
  "(ev \<noteq> Save \<longrightarrow> snd (handle h ev s) = []
        \<and> nodeData (fst (handle h ev s)) = nodeData s \<and> json (fst (handle h ev s)) = json s)
   \<and> (nodeData s = None \<longrightarrow> handle h Save s = (s, []))
   \<and> (snd (handle h ev s) \<noteq> []
        \<longrightarrow> ev = Save \<and> (\<exists>nd doc. nodeData s = Some nd \<and> newJson h s nd = Inr doc))
   \<and> snd (handle h Cancel s) = []
   \<and> value' (fst (handle h Cancel s)) = normalizeNodeData h (rowsOf s)
   \<and> (nodeData s = Some nd \<longrightarrow>
        value' (fst (handle h Cancel s)) = normalizeNodeData h (Some (node_text nd)))
   \<and> error (fst (handle h Cancel s)) = None
   \<and> isEditing (fst (handle h Cancel s)) = False"
proof -
  have a: "ev \<noteq> Save \<longrightarrow> snd (handle h ev s) = []
        \<and> nodeData (fst (handle h ev s)) = nodeData s \<and> json (fst (handle h ev s)) = json s"
    by (cases ev)
       (simp_all add: handleEdit_def handleCancel_def handleChange_def setOpened_def resetEffect_def)
  have b: "nodeData s = None \<longrightarrow> handle h Save s = (s, [])"
    by (simp add: handleSave_def)
  have c: "snd (handle h ev s) \<noteq> []
        \<longrightarrow> ev = Save \<and> (\<exists>nd doc. nodeData s = Some nd \<and> newJson h s nd = Inr doc)"
  proof
    assume n: "snd (handle h ev s) \<noteq> []"
    with a have ev: "ev = Save" by blast
    with n have "snd (handleSave h s) \<noteq> []" by simp
    then have "\<exists>nd doc. nodeData s = Some nd \<and> newJson h s nd = Inr doc"
      by (auto simp: handleSave_def split: option.splits sum.splits)
    with ev show "ev = Save \<and> (\<exists>nd doc. nodeData s = Some nd \<and> newJson h s nd = Inr doc)"
      by simp
  qed
  have d: "snd (handle h Cancel s) = []
   \<and> value' (fst (handle h Cancel s)) = normalizeNodeData h (rowsOf s)
   \<and> (nodeData s = Some nd \<longrightarrow>
        value' (fst (handle h Cancel s)) = normalizeNodeData h (Some (node_text nd)))
   \<and> error (fst (handle h Cancel s)) = None
   \<and> isEditing (fst (handle h Cancel s)) = False"
    by (simp add: handleCancel_def rowsOf_def)
  show ?thesis using a b c d by blast
qed

theorem only_successful_save_calls_stores_witness:
  "snd (handle exampleHost (Change (js ''x'')) exampleModal) = []
   \<and> handle exampleHost Save (exampleModal\<lparr>nodeData := None\<rparr>) = (exampleModal\<lparr>nodeData := None\<rparr>, [])
   \<and> snd (handle exampleHost Save exampleModal) \<noteq> []
   \<and> (\<exists>doc. newJson exampleHost exampleModal exampleNode = Inr doc)
   \<and> value' (fst (handle exampleHost Cancel exampleModal))
       = js ''{'' @ [0x0A] @ js ''  '' @ dq @ js ''a'' @ dq @ js '': 1'' @ [0x0A] @ js ''}''"
proof -
  let ?t = "exampleModal\<lparr>nodeData := None\<rparr>"
  have e: "Change (js ''x'') \<noteq> Save" by simp
  from only_successful_save_calls_stores [of "Change (js ''x'')" exampleHost exampleModal] e
  have r1: "snd (handle exampleHost (Change (js ''x'')) exampleModal) = []"
    by blast
  have n: "nodeData ?t = None" by simp
  from only_successful_save_calls_stores [of Save exampleHost ?t] n
  have r2: "handle exampleHost Save ?t = (?t, [])"
    by blast
  have c: "snd (handle exampleHost Save exampleModal) \<noteq> []" by code_simp
  have a: "nodeData exampleModal = Some exampleNode" by (simp add: exampleModal_def)
  from only_successful_save_calls_stores [of Save exampleHost exampleModal] c
  have "\<exists>nd doc. nodeData exampleModal = Some nd \<and> newJson exampleHost exampleModal nd = Inr doc"
    by blast
  with a have r3: "\<exists>doc. newJson exampleHost exampleModal exampleNode = Inr doc"
    by simp
  have t: "normalizeNodeData exampleHost (Some (node_text exampleNode))
        = js ''{'' @ [0x0A] @ js ''  '' @ dq @ js ''a'' @ dq @ js '': 1'' @ [0x0A] @ js ''}''"
    by code_simp
  from only_successful_save_calls_stores [of Save exampleHost exampleModal exampleNode] a
  have "value' (fst (handle exampleHost Cancel exampleModal))
       = normalizeNodeData exampleHost (Some (node_text exampleNode))"
    by blast
  with t have r4: "value' (fst (handle exampleHost Cancel exampleModal))
       = js ''{'' @ [0x0A] @ js ''  '' @ dq @ js ''a'' @ dq @ js '': 1'' @ [0x0A] @ js ''}''"
    by simp
  show ?thesis using r1 r2 c r3 r4 by simp
qed

subsection \<open>The normalized text of a node\<close>

lemma map_of_addRow:
  "k \<noteq> js ''__proto__'' \<Longrightarrow>
   map_of (snd (addRow obj row)) k =
     (case map_of (shownEntries [row]) k of Some v \<Rightarrow> Some v | None \<Rightarrow> map_of (snd obj) k)"
  by (auto simp: addRow_def shownEntries_def assignProperty_def map_of_defineProperty
      split: option.splits)

lemma shownEntries_Cons: "shownEntries (row # rows) = shownEntries [row] @ shownEntries rows"
  by (simp add: shownEntries_def)

lemma rev_shownEntries_single: "rev (shownEntries [row]) = shownEntries [row]"
  by (simp add: shownEntries_def split: option.splits)

lemma map_of_addRows:
  "k \<noteq> js ''__proto__'' \<Longrightarrow>
   map_of (snd (foldl addRow obj rows)) k =
     (case map_of (rev (shownEntries rows)) k of Some v \<Rightarrow> Some v | None \<Rightarrow> map_of (snd obj) k)"
proof (induction rows arbitrary: obj)
  case Nil
  then show ?case by (simp add: shownEntries_def)
next
  case (Cons row rows)
  show ?case
    using Cons.prems
    by (simp add: Cons.IH map_of_addRow shownEntries_Cons [of row rows] rev_shownEntries_single map_add_def
        split: option.splits)
qed

text \<open>
  The text of a node: \<^verbatim>\<open>{}\<close> without rows, the value of a single row without a
  truthy key as a string, and otherwise the text of an object which, at every key
  other than \<^verbatim>\<open>__proto__\<close>, has the value of the last shown row of that key.
\<close>

lemma normalizeNodeData_object:
  "normalizeNodeData h None = js ''{}''
   \<and> normalizeNodeData h (Some []) = js ''{}''
   \<and> (\<not> truthyKey (row_key row) \<longrightarrow> normalizeNodeData h (Some [row]) = toString h (row_value row))
   \<and> (truthyKey (row_key row) \<or> rows \<noteq> [] \<longrightarrow>
        normalizeNodeData h (Some (row # rows))
          = serialize h [] (JObj (snd (foldl addRow (ObjectPrototype, []) (row # rows))))
        \<and> (\<forall>k. k \<noteq> js ''__proto__'' \<longrightarrow>
              map_of (snd (foldl addRow (ObjectPrototype, []) (row # rows))) k
                = map_of (rev (shownEntries (row # rows))) k))"
proof -
  have m: "k \<noteq> js ''__proto__'' \<Longrightarrow>
     map_of (snd (foldl addRow (ObjectPrototype, []) (row # rows))) k
       = map_of (rev (shownEntries (row # rows))) k" for k
    using map_of_addRows [of k "(ObjectPrototype, [])" "row # rows"] by (simp split: option.splits)
  have o: "truthyKey (row_key row) \<or> rows \<noteq> [] \<longrightarrow>
        normalizeNodeData h (Some (row # rows))
          = serialize h [] (JObj (snd (foldl addRow (ObjectPrototype, []) (row # rows))))"
    by (auto simp: normalizeNodeData_def)
  have "\<not> truthyKey (row_key row) \<longrightarrow> normalizeNodeData h (Some [row]) = toString h (row_value row)"
    by (simp add: normalizeNodeData_def)
  then show ?thesis using o m by (simp add: normalizeNodeData_def)
qed

text \<open>
  A row of key \<^verbatim>\<open>__proto__\<close> becomes a property only after a row of that key with the
  value \<^verbatim>\<open>null\<close> has taken the prototype away.
\<close>

lemma addRow_proto_after_null:
  "snd (foldl addRow (ObjectPrototype, [])
         [\<lparr>row_key = Some (js ''__proto__''), row_value = JNull, row_type = js ''null''\<rparr>,
          \<lparr>row_key = Some (js ''__proto__''), row_value = JNum n, row_type = js ''number''\<rparr>])
     = [(js ''__proto__'', JNum n)]
   \<and> snd (foldl addRow (ObjectPrototype, [])
         [\<lparr>row_key = Some (js ''__proto__''), row_value = JNum n, row_type = js ''number''\<rparr>])
     = []"
  by (simp add: addRow_def assignProperty_def defineProperty_def js_def)

text \<open>
  Claim C5, at the rows of the document \<^verbatim>\<open>{"__proto__": 5, "a": 1}\<close>. Both rows are
  numbers with a truthy key, so the claim asks for the text of the object with both
  members (the second equation); \<^verbatim>\<open>normalizeNodeData\<close> returns the text of the object
  with \<^verbatim>\<open>a\<close> alone, because the assignment \<^verbatim>\<open>obj["__proto__"] = 5\<close> creates no
  property. For every other key the object is as the claim says
  (\<open>normalizeNodeData_object\<close>).
\<close>

theorem normalizeNodeData_drops_proto_row:
  "normalizeNodeData exampleHost (Some protoRows)
     = js ''{'' @ [0x0A] @ js ''  '' @ dq @ js ''a'' @ dq @ js '': 1'' @ [0x0A] @ js ''}''
   \<and> serialize exampleHost []
        (JObj [(js ''__proto__'', JNum (js ''5'')), (js ''a'', JNum (js ''1''))])
     = js ''{'' @ [0x0A] @ js ''  '' @ dq @ js ''__proto__'' @ dq @ js '': 5,'' @ [0x0A]
       @ js ''  '' @ dq @ js ''a'' @ dq @ js '': 1'' @ [0x0A] @ js ''}''"
  by code_simp

end
